theory Spec2Isabelle
  imports Complex_Main
begin

unbundle bit_operations_syntax

section \<open>Squares, moves and pieces of the rules library\<close>

text \<open>
  The program (\<^verbatim>\<open>chess_stockfish.py\<close>) is a Tk front end over the python-chess
  library. A square is a Python \<^verbatim>\<open>int\<close> (0 is a1, 7 is h1, 63 is h8), a colour is a
  Python \<^verbatim>\<open>bool\<close> (\<^verbatim>\<open>chess.WHITE = True\<close>, \<^verbatim>\<open>chess.BLACK = False\<close>).
  The three square helpers of the library are one-liners:
  \<^verbatim>\<open>square_file(sq) = sq & 7\<close>, \<^verbatim>\<open>square_rank(sq) = sq >> 3\<close>,
  \<^verbatim>\<open>square(file, rank) = rank * 8 + file\<close>.
\<close>

type_synonym square = int
type_synonym color = bool

definition WHITE :: color where "WHITE = True"
definition BLACK :: color where "BLACK = False"

definition square_file :: "square \<Rightarrow> int" where
  "square_file sq = sq AND 7"

definition square_rank :: "square \<Rightarrow> int" where
  "square_rank sq = drop_bit 3 sq"

definition square :: "int \<Rightarrow> int \<Rightarrow> square" where
  "square file_index rank_index = rank_index * 8 + file_index"

datatype piece_type = PAWN | KNIGHT | BISHOP | ROOK | QUEEN | KING

record piece =
  piece_type :: piece_type
  color :: color

text \<open>\<^verbatim>\<open>chess.Move(from_square, to_square, promotion=None)\<close>; two moves are equal
  when all their fields are.\<close>

record move =
  from_square :: square
  to_square :: square
  promotion :: "piece_type option"

definition Move :: "square \<Rightarrow> square \<Rightarrow> piece_type option \<Rightarrow> move" where
  "Move f t p = \<lparr>from_square = f, to_square = t, promotion = p\<rparr>"

section \<open>User settings and the coordinate helpers\<close>

definition BOARD_SIZE :: int where "BOARD_SIZE = 480"
definition SQUARE_SIZE :: int where "SQUARE_SIZE = BOARD_SIZE div 8"

text \<open>\<^verbatim>\<open>sq_to_rc\<close>: square index to (row, col), row 0 at the top (rank 8).\<close>

definition sq_to_rc :: "square \<Rightarrow> bool \<Rightarrow> int \<times> int" where
  "sq_to_rc sq flp =
     (let row = 7 - square_rank sq;
          col = square_file sq
      in if flp then (7 - row, 7 - col) else (row, col))"

definition rc_to_sq :: "int \<Rightarrow> int \<Rightarrow> bool \<Rightarrow> square" where
  "rc_to_sq row col flp =
     (let (row', col') = (if flp then (7 - row, 7 - col) else (row, col));
          rank = 7 - row';
          file = col'
      in square file rank)"

section \<open>The rules oracle and the board object\<close>

text \<open>
  Legal-move generation, move application and the end-of-game tests belong to the
  python-chess library, which is not part of this repository. They are taken as a
  parameter: a record with one field for every query the program makes on
  \<^verbatim>\<open>self.board\<close>, over an arbitrary type \<open>'p\<close> of positions. Every theorem
  about the program holds for every such record; section ``Standard chess'' gives the
  instance used at concrete inputs.

  \<^verbatim>\<open>chess.Board\<close> itself is the current position together with the stack of the
  positions it went through and the moves that were pushed: \<^verbatim>\<open>push\<close> saves the
  position and plays the move, \<^verbatim>\<open>pop\<close> restores the last saved position and
  raises \<^verbatim>\<open>IndexError\<close> on an empty stack, \<^verbatim>\<open>peek\<close> is the last pushed
  move, \<^verbatim>\<open>reset\<close> restores the starting position and clears the stack.

  Modelled from the spec: what a \<^verbatim>\<open>push\<close> that raises leaves behind. The library
  is not in the repository; section 6 of the spec gives its contract as ``apply(move):
  new position or rejection'' and ``never leaves Position in an illegal state'', so a
  push that raises leaves the board as it was. The moves the program itself builds
  start from an occupied square and are never rejected.
\<close>

record 'p board =
  position :: 'p
  stack :: "('p \<times> move) list"

record 'p rules =
  start_pos :: 'p
    \<comment> \<open>\<^verbatim>\<open>chess.Board()\<close>, \<^verbatim>\<open>board.reset()\<close>\<close>
  push_pos :: "'p \<Rightarrow> move \<Rightarrow> ('p \<times> move) option"
    \<comment> \<open>\<^verbatim>\<open>board.push(move)\<close>: the next position and the move as recorded on the
        stack; \<open>None\<close> when the call raises\<close>
  legal_moves :: "'p \<Rightarrow> move list"
    \<comment> \<open>iterating \<^verbatim>\<open>board.legal_moves\<close>\<close>
  is_legal :: "'p \<Rightarrow> move \<Rightarrow> bool"
    \<comment> \<open>\<^verbatim>\<open>move in board.legal_moves\<close>\<close>
  piece_at :: "'p \<Rightarrow> square \<Rightarrow> piece option"
  turn :: "'p \<Rightarrow> color"
  is_checkmate :: "'p \<Rightarrow> bool"
  is_stalemate :: "'p \<Rightarrow> bool"
  is_check :: "'p \<Rightarrow> bool"
  is_game_over :: "'p board \<Rightarrow> bool"
    \<comment> \<open>may look at the stack (repetition)\<close>

datatype py_error = IndexError

definition board_reset :: "'p rules \<Rightarrow> 'p board" where
  "board_reset R = \<lparr>position = start_pos R, stack = []\<rparr>"

definition board_push :: "'p rules \<Rightarrow> 'p board \<Rightarrow> move \<Rightarrow> 'p board option" where
  "board_push R b m =
     (case push_pos R (position b) m of
        None \<Rightarrow> None
      | Some (p', m') \<Rightarrow> Some \<lparr>position = p', stack = stack b @ [(position b, m')]\<rparr>)"

definition board_pop :: "'p board \<Rightarrow> py_error + 'p board" where
  "board_pop b =
     (if stack b = [] then Inl IndexError
      else Inr \<lparr>position = fst (last (stack b)), stack = butlast (stack b)\<rparr>)"

definition board_peek :: "'p board \<Rightarrow> move option" where
  "board_peek b = (if stack b = [] then None else Some (snd (last (stack b))))"

section \<open>The application state\<close>

text \<open>
  The fields of \<^verbatim>\<open>ChessGUI\<close> that the callbacks read or write. The canvas is
  write-only (nothing reads it back) and is left out; the status line is kept, as a
  value instead of its display string. \<^verbatim>\<open>self.after(ms, f)\<close> appends to the queue
  of scheduled callbacks. A history entry is the pair \<^verbatim>\<open>(move, san)\<close> the source
  appends, whose second component is \<^verbatim>\<open>board.peek()\<close> for a human move and
  \<^verbatim>\<open>None\<close> for an engine move.

  The object is shared with the daemon threads that \<^verbatim>\<open>engine_move_if_needed\<close>
  starts (line 305), so the state also holds, in the order they were started, where
  each of them stands: inside \<^verbatim>\<open>engine.play\<close>, between its \<^verbatim>\<open>board.push\<close>
  (line 298) and its \<^verbatim>\<open>move_stack.append\<close> (line 299) with the move it pushed, or
  at its end.
\<close>

datatype status =
    ToMove color
  | ToMoveCheck color
  | CheckmateWins color
  | Stalemate

datatype callback = EngineMoveIfNeeded | DrawBoard

datatype engine_handle = SimpleEngine

datatype worker = Thinking | Pushed move | Finished

record 'p gui =
  board :: "'p board"
  flip :: bool
  selected_sq :: "square option"
  legal_targets :: "square list"
  move_stack :: "(move \<times> move option) list"
  engine :: "engine_handle option"
  engine_side :: "color option"
  engine_think_time :: rat
  status_var :: status
  after_queue :: "(nat \<times> callback) list"
  threads :: "worker list"

definition ENGINE_THINK_TIME :: rat where "ENGINE_THINK_TIME = 1 / 10"

definition after :: "nat \<Rightarrow> callback \<Rightarrow> 'p gui \<Rightarrow> 'p gui" where
  "after ms f s = s\<lparr>after_queue := after_queue s @ [(ms, f)]\<rparr>"

text \<open>\<^verbatim>\<open>draw_board\<close>: apart from the canvas, it sets the status line.\<close>

definition draw_board :: "'p rules \<Rightarrow> 'p gui \<Rightarrow> 'p gui" where
  "draw_board R s =
     (let p = position (board s) in
      if is_checkmate R p then
        s\<lparr>status_var := CheckmateWins (if turn R p = BLACK then WHITE else BLACK)\<rparr>
      else if is_stalemate R p then s\<lparr>status_var := Stalemate\<rparr>
      else if is_check R p then s\<lparr>status_var := ToMoveCheck (turn R p)\<rparr>
      else s\<lparr>status_var := ToMove (turn R p)\<rparr>)"

text \<open>\<^verbatim>\<open>__init__\<close>.\<close>

definition init :: "'p rules \<Rightarrow> 'p gui" where
  "init R =
     draw_board R
       \<lparr>board = board_reset R, flip = False, selected_sq = None, legal_targets = [],
        move_stack = [], engine = None, engine_side = None,
        engine_think_time = ENGINE_THINK_TIME, status_var = ToMove WHITE,
        after_queue = [], threads = []\<rparr>"

subsection \<open>Engine management\<close>

text \<open>
  \<^verbatim>\<open>STOCKFISH_PATH\<close> and the outcome of \<^verbatim>\<open>popen_uci\<close> come from the
  environment: \<open>path\<close> is the configured path, \<open>popen\<close> is the handle the launch
  returns, \<open>None\<close> when it raises. The error boxes are display only.
\<close>

definition start_engine :: "string \<Rightarrow> engine_handle option \<Rightarrow> 'p gui \<Rightarrow> 'p gui" where
  "start_engine path popen s =
     (if engine s \<noteq> None then s
      else if path = [] then s
      else (case popen of
              Some h \<Rightarrow> s\<lparr>engine := Some h\<rparr>
            | None \<Rightarrow> s\<lparr>engine := None\<rparr>))"

definition stop_engine :: "'p gui \<Rightarrow> 'p gui" where
  "stop_engine s = (if engine s \<noteq> None then s\<lparr>engine := None\<rparr> else s)"

subsection \<open>Game control\<close>

definition new_game :: "'p rules \<Rightarrow> 'p gui \<Rightarrow> 'p gui" where
  "new_game R s =
     (let s1 = draw_board R
                 (s\<lparr>board := board_reset R, move_stack := [], selected_sq := None,
                    legal_targets := [], status_var := ToMove WHITE\<rparr>)
      in if engine_side s1 = Some WHITE then after 50 EngineMoveIfNeeded s1 else s1)"

definition undo_move :: "'p rules \<Rightarrow> 'p gui \<Rightarrow> py_error + 'p gui" where
  "undo_move R s =
     (if length (move_stack s) = 0 then Inr s
      else (case board_pop (board s) of
              Inl e \<Rightarrow> Inl e
            | Inr b \<Rightarrow>
                Inr (draw_board R
                       (s\<lparr>board := b, move_stack := butlast (move_stack s),
                          selected_sq := None, legal_targets := [],
                          status_var := ToMove (turn R (position b))\<rparr>))))"

definition flip_board :: "'p rules \<Rightarrow> 'p gui \<Rightarrow> 'p gui" where
  "flip_board R s = draw_board R (s\<lparr>flip := \<not> flip s\<rparr>)"

text \<open>
  \<^verbatim>\<open>ask_play_engine\<close>: \<open>choice\<close> is the answer of the yes/no box, \<open>time\<close> the
  answer of the think-time dialog (\<open>None\<close> when cancelled).
\<close>

definition ask_play_engine ::
  "'p rules \<Rightarrow> string \<Rightarrow> rat option \<Rightarrow> string \<Rightarrow> engine_handle option \<Rightarrow> 'p gui \<Rightarrow> 'p gui" where
  "ask_play_engine R choice time path popen s =
     (let s1 = (if choice = ''yes'' then s\<lparr>engine_side := Some BLACK\<rparr>
                else s\<lparr>engine_side := Some WHITE\<rparr>);
          s2 = (case time of None \<Rightarrow> s1 | Some t \<Rightarrow> s1\<lparr>engine_think_time := t\<rparr>);
          s3 = start_engine path popen s2
      in if engine_side s3 = Some WHITE \<and> turn R (position (board s3)) = WHITE
         then after 50 EngineMoveIfNeeded s3 else s3)"

subsection \<open>Input handling\<close>

definition is_promotion_move :: "'p rules \<Rightarrow> 'p gui \<Rightarrow> square \<Rightarrow> square \<Rightarrow> bool" where
  "is_promotion_move R s from_sq to_sq =
     (case piece_at R (position (board s)) from_sq of
        None \<Rightarrow> False
      | Some pc \<Rightarrow>
          if piece_type pc \<noteq> PAWN then False
          else (let to_rank = square_rank to_sq in
                if (color pc = WHITE \<and> to_rank = 7) \<or> (color pc = BLACK \<and> to_rank = 0)
                then True else False))"

text \<open>\<^verbatim>\<open>push_move\<close>: the \<^verbatim>\<open>except\<close> branch only prints.\<close>

definition push_move :: "'p rules \<Rightarrow> move \<Rightarrow> 'p gui \<Rightarrow> 'p gui" where
  "push_move R m s =
     (case board_push R (board s) m of
        None \<Rightarrow> s
      | Some b \<Rightarrow>
          draw_board R
            (s\<lparr>board := b, move_stack := move_stack s @ [(m, board_peek b)],
               selected_sq := None, legal_targets := []\<rparr>))"

definition targets_from :: "'p rules \<Rightarrow> 'p \<Rightarrow> square \<Rightarrow> square list" where
  "targets_from R p sq = map to_square (filter (\<lambda>m. from_square m = sq) (legal_moves R p))"

definition own_piece :: "'p rules \<Rightarrow> 'p \<Rightarrow> square \<Rightarrow> bool" where
  "own_piece R p sq =
     (case piece_at R p sq of None \<Rightarrow> False | Some pc \<Rightarrow> color pc = turn R p)"

text \<open>\<^verbatim>\<open>on_click\<close>, with \<open>x\<close> and \<open>y\<close> the pointer coordinates of the event.\<close>

definition on_click :: "'p rules \<Rightarrow> int \<Rightarrow> int \<Rightarrow> 'p gui \<Rightarrow> 'p gui" where
  "on_click R x y s =
     (let col = x div SQUARE_SIZE;
          row = y div SQUARE_SIZE
      in if col < 0 \<or> col > 7 \<or> row < 0 \<or> row > 7 then s
         else
           let sq = rc_to_sq row col (flip s);
               p = position (board s)
           in if engine_side s \<noteq> None \<and> Some (turn R p) = engine_side s then s
              else
                (case selected_sq s of
                   None \<Rightarrow>
                     if own_piece R p sq
                     then draw_board R (s\<lparr>selected_sq := Some sq,
                                          legal_targets := targets_from R p sq\<rparr>)
                     else s
                 | Some sel \<Rightarrow>
                     let s1 =
                       (if is_legal R p (Move sel sq None) then
                          push_move R
                            (if is_promotion_move R s sel sq
                             then Move sel sq (Some QUEEN) else Move sel sq None) s
                        else if own_piece R p sq then
                          s\<lparr>selected_sq := Some sq, legal_targets := targets_from R p sq\<rparr>
                        else s\<lparr>selected_sq := None, legal_targets := []\<rparr>)
                     in after 50 EngineMoveIfNeeded (draw_board R s1)))"

subsection \<open>Engine play\<close>

text \<open>
  What \<^verbatim>\<open>self.engine.play(board, limit)\<close> does is the engine's business: it raises,
  returns \<^verbatim>\<open>None\<close>, or returns a result whose \<^verbatim>\<open>move\<close> may be \<^verbatim>\<open>None\<close>.

  \<^verbatim>\<open>think_and_move\<close> is the body of the thread. It runs beside the main loop and
  takes no lock, so its two writes are two steps: \<open>think_and_move_play\<close> is the body
  up to \<^verbatim>\<open>board.push\<close> (lines 294 to 298) and gives the move that was pushed when
  line 299 is still to come; \<open>think_and_move_append\<close> is the rest (lines 299 to 301).
  Everything is inside one \<^verbatim>\<open>try\<close> whose handler only prints.
  \<open>think_and_move\<close> is the whole body, run with nothing in between.
\<close>

datatype play_reply = PlayRaises | PlayNone | PlayResult "move option"

definition think_and_move_play ::
  "'p rules \<Rightarrow> play_reply \<Rightarrow> 'p gui \<Rightarrow> 'p gui \<times> move option" where
  "think_and_move_play R reply s =
     (case reply of
        PlayRaises \<Rightarrow> (s, None)
      | PlayNone \<Rightarrow> (s, None)
      | PlayResult None \<Rightarrow> (s, None)
      | PlayResult (Some m) \<Rightarrow>
          (case board_push R (board s) m of
             None \<Rightarrow> (s, None)
           | Some b \<Rightarrow> (s\<lparr>board := b\<rparr>, Some m)))"

definition think_and_move_append :: "move \<Rightarrow> 'p gui \<Rightarrow> 'p gui" where
  "think_and_move_append m s =
     after 10 DrawBoard (s\<lparr>move_stack := move_stack s @ [(m, None)]\<rparr>)"

definition think_and_move :: "'p rules \<Rightarrow> play_reply \<Rightarrow> 'p gui \<Rightarrow> 'p gui" where
  "think_and_move R reply s =
     (case think_and_move_play R reply s of
        (s1, None) \<Rightarrow> s1
      | (s1, Some m) \<Rightarrow> think_and_move_append m s1)"

text \<open>
  \<^verbatim>\<open>engine_move_if_needed\<close>: after its guards it starts the thread and returns;
  the thread begins inside \<^verbatim>\<open>engine.play\<close>.
\<close>

definition engine_move_if_needed ::
  "'p rules \<Rightarrow> string \<Rightarrow> engine_handle option \<Rightarrow> 'p gui \<Rightarrow> 'p gui" where
  "engine_move_if_needed R path popen s =
     (if engine_side s = None then s
      else if is_game_over R (board s) then s
      else if Some (turn R (position (board s))) \<noteq> engine_side s then s
      else
        let s1 = start_engine path popen s
        in if engine s1 = None then s1 else s1\<lparr>threads := threads s1 @ [Thinking]\<rparr>)"

text \<open>
  The two steps of the thread started as number \<open>i\<close>: \<^verbatim>\<open>engine.play\<close> comes back
  with \<open>reply\<close> and the thread runs up to line 298; the thread runs lines 299 to 301.
  A step of a thread that does not stand there does nothing.
\<close>

definition thread_plays :: "'p rules \<Rightarrow> nat \<Rightarrow> play_reply \<Rightarrow> 'p gui \<Rightarrow> 'p gui" where
  "thread_plays R i reply s =
     (if i < length (threads s) \<and> threads s ! i = Thinking then
        (case think_and_move_play R reply s of
           (s1, None) \<Rightarrow> s1\<lparr>threads := (threads s1)[i := Finished]\<rparr>
         | (s1, Some m) \<Rightarrow> s1\<lparr>threads := (threads s1)[i := Pushed m]\<rparr>)
      else s)"

definition thread_appends :: "nat \<Rightarrow> 'p gui \<Rightarrow> 'p gui" where
  "thread_appends i s =
     (if i < length (threads s) then
        (case threads s ! i of
           Pushed m \<Rightarrow> think_and_move_append m (s\<lparr>threads := (threads s)[i := Finished]\<rparr>)
         | Thinking \<Rightarrow> s
         | Finished \<Rightarrow> s)
      else s)"

subsection \<open>The event loop and the threads\<close>

text \<open>
  One step of the program: an event of the Tk main loop (a button, a click on the
  canvas, a scheduled callback coming due), with the answers the environment gives
  during it, or a step of one of the threads. The main loop runs its handlers one at
  a time; the steps of the threads fall before, between and after them, in any order.
  Each handler is taken as one step, so a write of a thread falls beside the handlers,
  not inside one.
  Tk reports an exception raised by a callback and carries on with the state as the
  callback left it; \<^verbatim>\<open>undo_move\<close> raises before it has written anything.
  A \<open>Due\<close> event is not tied to the queue of scheduled callbacks: it may come at
  any time, which only adds runs.
\<close>

datatype event =
    NewGame
  | Undo
  | FlipBoard
  | PlayVsEngine string "rat option" string "engine_handle option"
  | Click int int
  | Due callback string "engine_handle option"
  | ThreadPlays nat play_reply
  | ThreadAppends nat

definition dispatch :: "'p rules \<Rightarrow> event \<Rightarrow> 'p gui \<Rightarrow> 'p gui" where
  "dispatch R ev s =
     (case ev of
        NewGame \<Rightarrow> new_game R s
      | Undo \<Rightarrow> (case undo_move R s of Inl e \<Rightarrow> s | Inr s' \<Rightarrow> s')
      | FlipBoard \<Rightarrow> flip_board R s
      | PlayVsEngine choice time path popen \<Rightarrow> ask_play_engine R choice time path popen s
      | Click x y \<Rightarrow> on_click R x y s
      | Due EngineMoveIfNeeded path popen \<Rightarrow> engine_move_if_needed R path popen s
      | Due DrawBoard path popen \<Rightarrow> draw_board R s
      | ThreadPlays i reply \<Rightarrow> thread_plays R i reply s
      | ThreadAppends i \<Rightarrow> thread_appends i s)"


section \<open>Standard chess\<close>

text \<open>
  An instance of the rules record: the rules of chess as the library plays them for
  a standard game (not Chess960, no drops). It is what concrete inputs are evaluated
  on. A position is the piece map, the side to move, the rook squares that keep a
  castling right, the en-passant square set by the last double pawn push, and the two
  move counters. The order in which the legal moves are listed is not the library's;
  the program reads the list only to mark the destination squares.
\<close>

record chess_position =
  piece_map :: "(square \<times> piece) list"
  to_move :: color
  castling_rights :: "square list"
  ep_square :: "square option"
  halfmove_clock :: nat
  fullmove_number :: nat

definition Piece :: "piece_type \<Rightarrow> color \<Rightarrow> piece" where
  "Piece k c = \<lparr>piece_type = k, color = c\<rparr>"

definition std_piece_at :: "chess_position \<Rightarrow> square \<Rightarrow> piece option" where
  "std_piece_at p sq = map_of (piece_map p) sq"

definition remove_piece_at :: "square \<Rightarrow> (square \<times> piece) list \<Rightarrow> (square \<times> piece) list" where
  "remove_piece_at sq pm = filter (\<lambda>e. fst e \<noteq> sq) pm"

definition set_piece_at ::
  "square \<Rightarrow> piece \<Rightarrow> (square \<times> piece) list \<Rightarrow> (square \<times> piece) list" where
  "set_piece_at sq pc pm = (sq, pc) # remove_piece_at sq pm"

subsection \<open>Attacks\<close>

definition shift :: "square \<Rightarrow> int \<times> int \<Rightarrow> square option" where
  "shift sq d =
     (let f = square_file sq + fst d; r = square_rank sq + snd d
      in if 0 \<le> f \<and> f < 8 \<and> 0 \<le> r \<and> r < 8 then Some (square f r) else None)"

definition step_attacks :: "square \<Rightarrow> (int \<times> int) list \<Rightarrow> square list" where
  "step_attacks sq steps = List.map_filter (shift sq) steps"

definition knight_steps :: "(int \<times> int) list" where
  "knight_steps = [(1, 2), (2, 1), (2, -1), (1, -2), (-1, -2), (-2, -1), (-2, 1), (-1, 2)]"

definition rook_dirs :: "(int \<times> int) list" where
  "rook_dirs = [(1, 0), (0, 1), (-1, 0), (0, -1)]"

definition bishop_dirs :: "(int \<times> int) list" where
  "bishop_dirs = [(1, 1), (-1, 1), (-1, -1), (1, -1)]"

definition pawn_steps :: "color \<Rightarrow> (int \<times> int) list" where
  "pawn_steps c = (if c = WHITE then [(-1, 1), (1, 1)] else [(-1, -1), (1, -1)])"

definition line :: "square \<Rightarrow> int \<times> int \<Rightarrow> square list" where
  "line sq d = List.map_filter (\<lambda>k. shift sq (k * fst d, k * snd d)) [1, 2, 3, 4, 5, 6, 7]"

primrec until_blocked :: "chess_position \<Rightarrow> square list \<Rightarrow> square list" where
  "until_blocked p [] = []"
| "until_blocked p (t # ts) =
     (if std_piece_at p t = None then t # until_blocked p ts else [t])"

definition slide_attacks :: "chess_position \<Rightarrow> square \<Rightarrow> (int \<times> int) list \<Rightarrow> square list" where
  "slide_attacks p sq dirs = concat (map (\<lambda>d. until_blocked p (line sq d)) dirs)"

text \<open>The squares attacked by the piece \<open>pc\<close> standing on \<open>sq\<close>
  (\<^verbatim>\<open>board.attacks\<close>).\<close>

definition attacks :: "chess_position \<Rightarrow> square \<Rightarrow> piece \<Rightarrow> square list" where
  "attacks p sq pc =
     (case piece_type pc of
        PAWN \<Rightarrow> step_attacks sq (pawn_steps (color pc))
      | KNIGHT \<Rightarrow> step_attacks sq knight_steps
      | BISHOP \<Rightarrow> slide_attacks p sq bishop_dirs
      | ROOK \<Rightarrow> slide_attacks p sq rook_dirs
      | QUEEN \<Rightarrow> slide_attacks p sq (rook_dirs @ bishop_dirs)
      | KING \<Rightarrow> step_attacks sq (rook_dirs @ bishop_dirs))"

definition is_attacked_by :: "chess_position \<Rightarrow> color \<Rightarrow> square \<Rightarrow> bool" where
  "is_attacked_by p c t =
     list_ex (\<lambda>e. color (snd e) = c \<and> t \<in> set (attacks p (fst e) (snd e))) (piece_map p)"

definition king :: "chess_position \<Rightarrow> color \<Rightarrow> square option" where
  "king p c = map_option fst (find (\<lambda>e. snd e = Piece KING c) (piece_map p))"

definition std_is_check :: "chess_position \<Rightarrow> bool" where
  "std_is_check p =
     (case king p (to_move p) of
        None \<Rightarrow> False
      | Some k \<Rightarrow> is_attacked_by p (\<not> to_move p) k)"

subsection \<open>Playing a move\<close>

text \<open>
  \<^verbatim>\<open>_from_chess960\<close>: in a standard game the library reads ``king takes own rook''
  from e1 or e8 as the castling move to g1, c1, g8 or c8.
\<close>

definition has_king_on :: "chess_position \<Rightarrow> square \<Rightarrow> bool" where
  "has_king_on p sq =
     (case std_piece_at p sq of None \<Rightarrow> False | Some pc \<Rightarrow> piece_type pc = KING)"

definition from_chess960 :: "chess_position \<Rightarrow> move \<Rightarrow> move" where
  "from_chess960 p m =
     (if promotion m = None then
        (if from_square m = 4 \<and> has_king_on p 4 then
           (if to_square m = 7 then Move 4 6 None
            else if to_square m = 0 then Move 4 2 None else m)
         else if from_square m = 60 \<and> has_king_on p 60 then
           (if to_square m = 63 then Move 60 62 None
            else if to_square m = 56 then Move 60 58 None else m)
         else m)
      else m)"

text \<open>
  \<^verbatim>\<open>clean_castling_rights\<close>: a right counts when the rook is still on its corner
  and the king on its home square.
\<close>

definition clean_castling_rights :: "chess_position \<Rightarrow> square list" where
  "clean_castling_rights p =
     filter
       (\<lambda>q. (q = 0 \<or> q = 7) \<and> std_piece_at p q = Some (Piece ROOK WHITE)
               \<and> std_piece_at p 4 = Some (Piece KING WHITE)
           \<or> (q = 56 \<or> q = 63) \<and> std_piece_at p q = Some (Piece ROOK BLACK)
               \<and> std_piece_at p 60 = Some (Piece KING BLACK))
       (castling_rights p)"

text \<open>
  \<^verbatim>\<open>push\<close>: it asserts that the origin square holds a piece and checks nothing
  else. The second component is the move as the stack records it. For a move that is
  not legal the position returned is some position, not meant to be the library's.
\<close>

definition std_push :: "chess_position \<Rightarrow> move \<Rightarrow> (chess_position \<times> move) option" where
  "std_push p m0 =
     (let m = from_chess960 p m0; f = from_square m; t = to_square m; c = to_move p in
      case std_piece_at p f of
        None \<Rightarrow> None
      | Some pc \<Rightarrow>
          let captured = std_piece_at p t;
              is_pawn = (piece_type pc = PAWN);
              diff = t - f;
              zeroing = (is_pawn \<or> (case captured of None \<Rightarrow> False | Some x \<Rightarrow> color x \<noteq> c));
              castling = (piece_type pc = KING \<and> \<bar>square_file t - square_file f\<bar> = 2);
              en_passant = (is_pawn \<and> ep_square p = Some t \<and> (\<bar>diff\<bar> = 7 \<or> \<bar>diff\<bar> = 9)
                            \<and> captured = None);
              rights = filter (\<lambda>q. q \<noteq> f \<and> q \<noteq> t
                                    \<and> \<not> (piece_type pc = KING \<and> square_rank q = (if c = WHITE then 0 else 7)))
                         (clean_castling_rights p);
              ep' = (if is_pawn \<and> diff = 16 \<and> square_rank f = 1 then Some (f + 8)
                     else if is_pawn \<and> diff = - 16 \<and> square_rank f = 6 then Some (f - 8)
                     else None);
              moved = (case promotion m of None \<Rightarrow> pc | Some k \<Rightarrow> Piece k c);
              pm1 = remove_piece_at f (piece_map p);
              pm2 = (if en_passant then remove_piece_at (t + (if c = WHITE then - 8 else 8)) pm1
                     else pm1);
              pm3 = set_piece_at t moved pm2;
              pm4 = (if castling then
                       (if square_file t < square_file f
                        then set_piece_at (t + 1) (Piece ROOK c) (remove_piece_at (t - 2) pm3)
                        else set_piece_at (t - 1) (Piece ROOK c) (remove_piece_at (t + 1) pm3))
                     else pm3)
          in Some
               (\<lparr>piece_map = pm4, to_move = (\<not> c), castling_rights = rights, ep_square = ep',
                 halfmove_clock = (if zeroing then 0 else halfmove_clock p + 1),
                 fullmove_number = (if c = BLACK then fullmove_number p + 1 else fullmove_number p)\<rparr>,
                m))"

subsection \<open>Legal moves\<close>

definition promote :: "square \<Rightarrow> square \<Rightarrow> move list" where
  "promote f t =
     (if square_rank t = 0 \<or> square_rank t = 7
      then map (\<lambda>k. Move f t (Some k)) [QUEEN, ROOK, BISHOP, KNIGHT]
      else [Move f t None])"

definition is_empty :: "chess_position \<Rightarrow> square \<Rightarrow> bool" where
  "is_empty p sq = (std_piece_at p sq = None)"

definition holds_color :: "chess_position \<Rightarrow> color \<Rightarrow> square \<Rightarrow> bool" where
  "holds_color p c sq = (case std_piece_at p sq of None \<Rightarrow> False | Some pc \<Rightarrow> color pc = c)"

definition pawn_moves :: "chess_position \<Rightarrow> square \<Rightarrow> color \<Rightarrow> move list" where
  "pawn_moves p sq c =
     (let dr = (if c = WHITE then 1 else - 1);
          caps = filter (holds_color p (\<not> c)) (step_attacks sq (pawn_steps c));
          one = filter (is_empty p) (step_attacks sq [(0, dr)]);
          two = (if one \<noteq> [] \<and> square_rank sq = (if c = WHITE then 1 else 6)
                 then filter (is_empty p) (step_attacks sq [(0, 2 * dr)]) else []);
          ep = (case ep_square p of
                  None \<Rightarrow> []
                | Some e \<Rightarrow>
                    if e \<in> set (step_attacks sq (pawn_steps c)) \<and> is_empty p e
                       \<and> square_rank sq = (if c = WHITE then 4 else 3)
                    then [e] else [])
      in concat (map (promote sq) (caps @ one)) @ map (\<lambda>t. Move sq t None) (two @ ep))"

definition piece_moves :: "chess_position \<Rightarrow> square \<Rightarrow> piece \<Rightarrow> move list" where
  "piece_moves p sq pc =
     (if piece_type pc = PAWN then pawn_moves p sq (color pc)
      else map (\<lambda>t. Move sq t None)
             (filter (\<lambda>t. \<not> holds_color p (color pc) t) (attacks p sq pc)))"

definition castling_moves :: "chess_position \<Rightarrow> move list" where
  "castling_moves p =
     (let c = to_move p;
          r = (if c = WHITE then 0 else 7);
          k = square 4 r;
          rights = clean_castling_rights p;
          free = (\<lambda>sq. is_empty p sq);
          safe = (\<lambda>sq. \<not> is_attacked_by p (\<not> c) sq)
      in (if square 7 r \<in> set rights \<and> free (square 5 r) \<and> free (square 6 r)
             \<and> safe k \<and> safe (square 5 r) \<and> safe (square 6 r)
          then [Move k (square 6 r) None] else [])
         @ (if square 0 r \<in> set rights \<and> free (square 1 r) \<and> free (square 2 r)
               \<and> free (square 3 r) \<and> safe k \<and> safe (square 3 r) \<and> safe (square 2 r)
            then [Move k (square 2 r) None] else []))"

definition pseudo_legal_moves :: "chess_position \<Rightarrow> move list" where
  "pseudo_legal_moves p =
     concat (map (\<lambda>e. if color (snd e) = to_move p then piece_moves p (fst e) (snd e) else [])
               (piece_map p))
     @ castling_moves p"

text \<open>\<^verbatim>\<open>is_into_check\<close>: the move leaves the mover's own king attacked.\<close>

definition is_into_check :: "chess_position \<Rightarrow> move \<Rightarrow> bool" where
  "is_into_check p m =
     (case std_push p m of
        None \<Rightarrow> False
      | Some (p', m') \<Rightarrow>
          (case king p' (to_move p) of
             None \<Rightarrow> False
           | Some k \<Rightarrow> is_attacked_by p' (\<not> to_move p) k))"

definition std_legal_moves :: "chess_position \<Rightarrow> move list" where
  "std_legal_moves p = filter (\<lambda>m. \<not> is_into_check p m) (pseudo_legal_moves p)"

text \<open>
  \<^verbatim>\<open>move in board.legal_moves\<close> does not run through the list: it asks whether the
  piece on the origin square has this very move (\<^verbatim>\<open>is_pseudo_legal\<close>), and whether
  the move leaves the king attacked. Moves are compared with all their fields, the
  promotion piece included.
\<close>

definition is_pseudo_legal :: "chess_position \<Rightarrow> move \<Rightarrow> bool" where
  "is_pseudo_legal p m =
     (case std_piece_at p (from_square m) of
        None \<Rightarrow> False
      | Some pc \<Rightarrow>
          color pc = to_move p
          \<and> m \<in> set (piece_moves p (from_square m) pc
                      @ (if piece_type pc = KING then castling_moves p else [])))"

definition std_is_legal :: "chess_position \<Rightarrow> move \<Rightarrow> bool" where
  "std_is_legal p m =
     (let m' = from_chess960 p m in is_pseudo_legal p m' \<and> \<not> is_into_check p m')"

subsection \<open>The end of the game\<close>

definition std_is_checkmate :: "chess_position \<Rightarrow> bool" where
  "std_is_checkmate p = (std_is_check p \<and> std_legal_moves p = [])"

definition std_is_stalemate :: "chess_position \<Rightarrow> bool" where
  "std_is_stalemate p = (\<not> std_is_check p \<and> std_legal_moves p = [])"

definition dark_square :: "square \<Rightarrow> bool" where
  "dark_square sq = ((square_file sq + square_rank sq) mod 2 = 0)"

definition has_insufficient_material :: "chess_position \<Rightarrow> color \<Rightarrow> bool" where
  "has_insufficient_material p c =
     (let own = filter (\<lambda>e. color (snd e) = c) (piece_map p);
          other = filter (\<lambda>e. color (snd e) \<noteq> c) (piece_map p);
          kind = (\<lambda>e. piece_type (snd e));
          bishops = filter (\<lambda>e. kind e = BISHOP) (piece_map p)
      in if list_ex (\<lambda>e. kind e = PAWN \<or> kind e = ROOK \<or> kind e = QUEEN) own then False
         else if list_ex (\<lambda>e. kind e = KNIGHT) own then
           length own \<le> 2 \<and> \<not> list_ex (\<lambda>e. kind e \<noteq> KING \<and> kind e \<noteq> QUEEN) other
         else if list_ex (\<lambda>e. kind e = BISHOP) own then
           (list_all (\<lambda>e. dark_square (fst e)) bishops \<or> list_all (\<lambda>e. \<not> dark_square (fst e)) bishops)
           \<and> \<not> list_ex (\<lambda>e. kind e = PAWN \<or> kind e = KNIGHT) (piece_map p)
         else True)"

definition is_insufficient_material :: "chess_position \<Rightarrow> bool" where
  "is_insufficient_material p =
     (has_insufficient_material p WHITE \<and> has_insufficient_material p BLACK)"

text \<open>
  Repetition compares what the library calls the transposition key: the pieces, the
  side to move, the castling rights that count, and the en-passant square when a
  capture on it is legal.
\<close>

definition all_squares :: "square list" where
  "all_squares = map int [0..<64]"

definition has_legal_en_passant :: "chess_position \<Rightarrow> bool" where
  "has_legal_en_passant p =
     (case ep_square p of
        None \<Rightarrow> False
      | Some e \<Rightarrow>
          list_ex (\<lambda>m. to_square m = e
                       \<and> std_piece_at p (from_square m) = Some (Piece PAWN (to_move p))
                       \<and> square_file (from_square m) \<noteq> square_file e)
            (std_legal_moves p))"

definition same_transposition :: "chess_position \<Rightarrow> chess_position \<Rightarrow> bool" where
  "same_transposition p q =
     (list_all (\<lambda>sq. std_piece_at p sq = std_piece_at q sq) all_squares
      \<and> to_move p = to_move q
      \<and> set (clean_castling_rights p) = set (clean_castling_rights q)
      \<and> (if has_legal_en_passant p then ep_square p else None)
          = (if has_legal_en_passant q then ep_square q else None))"

definition is_fivefold_repetition :: "chess_position board \<Rightarrow> bool" where
  "is_fivefold_repetition b =
     (4 \<le> length (filter (\<lambda>e. same_transposition (fst e) (position b)) (stack b)))"

definition std_is_game_over :: "chess_position board \<Rightarrow> bool" where
  "std_is_game_over b =
     (let p = position b
      in std_is_checkmate p \<or> is_insufficient_material p \<or> std_legal_moves p = []
         \<or> 150 \<le> halfmove_clock p \<or> is_fivefold_repetition b)"

subsection \<open>The starting position and the instance\<close>

definition back_rank :: "piece_type list" where
  "back_rank = [ROOK, KNIGHT, BISHOP, QUEEN, KING, BISHOP, KNIGHT, ROOK]"

definition std_start :: chess_position where
  "std_start =
     \<lparr>piece_map =
        zip [0, 1, 2, 3, 4, 5, 6, 7] (map (\<lambda>k. Piece k WHITE) back_rank)
        @ map (\<lambda>sq. (sq, Piece PAWN WHITE)) [8, 9, 10, 11, 12, 13, 14, 15]
        @ map (\<lambda>sq. (sq, Piece PAWN BLACK)) [48, 49, 50, 51, 52, 53, 54, 55]
        @ zip [56, 57, 58, 59, 60, 61, 62, 63] (map (\<lambda>k. Piece k BLACK) back_rank),
      to_move = WHITE, castling_rights = [0, 7, 56, 63], ep_square = None,
      halfmove_clock = 0, fullmove_number = 1\<rparr>"

definition std_rules :: "chess_position rules" where
  "std_rules =
     \<lparr>start_pos = std_start, push_pos = std_push, legal_moves = std_legal_moves,
      is_legal = std_is_legal, piece_at = std_piece_at, turn = to_move,
      is_checkmate = std_is_checkmate, is_stalemate = std_is_stalemate,
      is_check = std_is_check, is_game_over = std_is_game_over\<rparr>"

section \<open>Sequences of operations and the notions of the statements\<close>

text \<open>
  Moves applied one after the other through \<^verbatim>\<open>push_move\<close>, Undo pressed \<open>n\<close>
  times (an exception ends the sequence), and a line of moves each of which is legal
  where it is played and taken by the board.
\<close>

fun push_moves :: "'p rules \<Rightarrow> move list \<Rightarrow> 'p gui \<Rightarrow> 'p gui" where
  "push_moves R [] s = s"
| "push_moves R (m # ms) s = push_moves R ms (push_move R m s)"

fun undo_times :: "'p rules \<Rightarrow> nat \<Rightarrow> 'p gui \<Rightarrow> py_error + 'p gui" where
  "undo_times R 0 s = Inr s"
| "undo_times R (Suc n) s =
     (case undo_move R s of Inl e \<Rightarrow> Inl e | Inr s' \<Rightarrow> undo_times R n s')"

fun legal_line :: "'p rules \<Rightarrow> 'p \<Rightarrow> move list \<Rightarrow> bool" where
  "legal_line R p [] = True"
| "legal_line R p (m # ms) =
     (is_legal R p m \<and>
      (case push_pos R p m of None \<Rightarrow> False | Some (p', m') \<Rightarrow> legal_line R p' ms))"

text \<open>
  The plies on the board are the entries of its own stack, which \<^verbatim>\<open>reset\<close>
  empties. \<open>pending\<close> counts the threads that have pushed and not yet appended.
  \<open>ply_inv\<close>: the board has as many plies as the history has entries, and one more
  for each such thread. \<open>new_games_apart\<close>: along the steps, New Game is never
  handled while a thread stands between its push and its append.
\<close>

fun is_pushed :: "worker \<Rightarrow> bool" where
  "is_pushed (Pushed m) = True"
| "is_pushed w = False"

definition pending :: "'p gui \<Rightarrow> nat" where
  "pending s = length (filter is_pushed (threads s))"

definition ply_inv :: "'p gui \<Rightarrow> bool" where
  "ply_inv s = (length (stack (board s)) = length (move_stack s) + pending s)"


text \<open>The event of the Play-vs-Engine button.\<close>

fun is_play_vs_engine :: "event \<Rightarrow> bool" where
  "is_play_vs_engine (PlayVsEngine choice time path popen) = True"
| "is_play_vs_engine ev = False"

text \<open>
  The column, row and square of a click as \<^verbatim>\<open>on_click\<close> computes them, and the
  test that makes it ignore the click while the engine is to move.
\<close>

definition click_col :: "int \<Rightarrow> int" where "click_col x = x div SQUARE_SIZE"
definition click_row :: "int \<Rightarrow> int" where "click_row y = y div SQUARE_SIZE"
definition on_grid :: "int \<Rightarrow> int \<Rightarrow> bool" where
  "on_grid x y = (0 \<le> click_col x \<and> click_col x \<le> 7 \<and> 0 \<le> click_row y \<and> click_row y \<le> 7)"
definition clicked_sq :: "'p gui \<Rightarrow> int \<Rightarrow> int \<Rightarrow> square" where
  "clicked_sq s x y = rc_to_sq (click_row y) (click_col x) (flip s)"
definition engine_to_move :: "'p rules \<Rightarrow> 'p gui \<Rightarrow> bool" where
  "engine_to_move R s = (engine_side s = Some (turn R (position (board s))))"

text \<open>
  A click in the middle of the cell where \<^verbatim>\<open>draw_board\<close> draws the square, a game
  played by clicking origin and destination of each move in turn, and the position such
  a game reaches when every move is a legal move of the side to move that stays off the
  first and last ranks. \<open>idle_at\<close>: nothing is selected and no engine plays.
\<close>

definition click_square :: "'p rules \<Rightarrow> square \<Rightarrow> 'p gui \<Rightarrow> 'p gui" where
  "click_square R sq s =
     (case sq_to_rc sq (flip s) of
        (row, col) \<Rightarrow>
          on_click R (col * SQUARE_SIZE + SQUARE_SIZE div 2)
            (row * SQUARE_SIZE + SQUARE_SIZE div 2) s)"

fun click_moves :: "'p rules \<Rightarrow> (square \<times> square) list \<Rightarrow> 'p gui \<Rightarrow> 'p gui" where
  "click_moves R [] s = s"
| "click_moves R (ft # fts) s =
     click_moves R fts (click_square R (snd ft) (click_square R (fst ft) s))"

fun plain_line :: "'p rules \<Rightarrow> 'p \<Rightarrow> (square \<times> square) list \<Rightarrow> 'p option" where
  "plain_line R p [] = Some p"
| "plain_line R p (ft # fts) =
     (let f = fst ft; t = snd ft in
      if 0 \<le> f \<and> f < 64 \<and> 0 \<le> t \<and> t < 64 \<and> own_piece R p f
         \<and> is_legal R p (Move f t None) \<and> 0 < square_rank t \<and> square_rank t < 7
      then (case push_pos R p (Move f t None) of
              None \<Rightarrow> None
            | Some (p', m') \<Rightarrow> plain_line R p' fts)
      else None)"

definition idle_at :: "'p \<Rightarrow> 'p gui \<Rightarrow> bool" where
  "idle_at p s = (position (board s) = p \<and> selected_sq s = None \<and> engine_side s = None)"

text \<open>
  A game from the starting position after which White can promote:
  1. h4 g5 2. hxg5 a6 3. g6 a5 4. gxh7 a4, and now 5. hxg8. The positions after it
  and after 1. e4.
\<close>

definition promotion_game :: "(square \<times> square) list" where
  "promotion_game =
     [(15, 31), (54, 38), (31, 38), (48, 40), (38, 46), (40, 32), (46, 55), (32, 24)]"

definition before_promotion :: chess_position where
  "before_promotion =
     \<lparr>piece_map =
        [(24, Piece PAWN BLACK), (55, Piece PAWN WHITE)]
        @ zip [0, 1, 2, 3, 4, 5, 6, 7] (map (\<lambda>k. Piece k WHITE) back_rank)
        @ map (\<lambda>sq. (sq, Piece PAWN WHITE)) [8, 9, 10, 11, 12, 13, 14]
        @ map (\<lambda>sq. (sq, Piece PAWN BLACK)) [49, 50, 51, 52, 53]
        @ zip [56, 57, 58, 59, 60, 61, 62, 63] (map (\<lambda>k. Piece k BLACK) back_rank),
      to_move = WHITE, castling_rights = [0, 7, 56, 63], ep_square = None,
      halfmove_clock = 0, fullmove_number = 5\<rparr>"

definition after_e4 :: chess_position where
  "after_e4 =
     \<lparr>piece_map =
        [(28, Piece PAWN WHITE)]
        @ zip [0, 1, 2, 3, 4, 5, 6, 7] (map (\<lambda>k. Piece k WHITE) back_rank)
        @ map (\<lambda>sq. (sq, Piece PAWN WHITE)) [8, 9, 10, 11, 13, 14, 15]
        @ map (\<lambda>sq. (sq, Piece PAWN BLACK)) [48, 49, 50, 51, 52, 53, 54, 55]
        @ zip [56, 57, 58, 59, 60, 61, 62, 63] (map (\<lambda>k. Piece k BLACK) back_rank),
      to_move = BLACK, castling_rights = [0, 7, 56, 63], ep_square = Some 20,
      halfmove_clock = 0, fullmove_number = 1\<rparr>"

section \<open>Coordinate round trips\<close>

lemma square_file_mod: "square_file sq = sq mod 8"
proof -
  have "sq AND 7 = sq AND mask 3" by (simp add: mask_eq_exp_minus_1)
  also have "\<dots> = take_bit 3 sq" by (simp add: take_bit_eq_mask)
  also have "\<dots> = sq mod 8" by (simp add: take_bit_eq_mod)
  finally show ?thesis by (simp add: square_file_def)
qed

lemma square_rank_div: "square_rank sq = sq div 8"
  by (simp add: square_rank_def drop_bit_eq_div)

lemma rank_of_square: "0 \<le> f \<Longrightarrow> f < 8 \<Longrightarrow> square_rank (square f r) = r"
  by (simp add: square_rank_div square_def)

lemma file_of_square: "0 \<le> f \<Longrightarrow> f < 8 \<Longrightarrow> square_file (square f r) = f"
  by (simp add: square_file_mod square_def)

lemma square_of_rank_file: "square (square_file sq) (square_rank sq) = sq"
  by (simp add: square_file_mod square_rank_div square_def)

text \<open>
  Claim C4. At each flip state the two helpers are exact inverses on the board:
  a square 0..63 mapped to (row, col) and back is the same square, and a (row, col)
  in 0..7 x 0..7 mapped to a square and back is the same coordinate.
\<close>

theorem sq_rc_roundtrip:
  "(0 \<le> sq \<and> sq < 64 \<longrightarrow>
      (case sq_to_rc sq flp of (row, col) \<Rightarrow> rc_to_sq row col flp) = sq) \<and>
   (0 \<le> row \<and> row \<le> 7 \<and> 0 \<le> col \<and> col \<le> 7 \<longrightarrow>
      sq_to_rc (rc_to_sq row col flp) flp = (row, col))"
proof (intro conjI impI)
  show "(case sq_to_rc sq flp of (row, col) \<Rightarrow> rc_to_sq row col flp) = sq"
    by (simp add: sq_to_rc_def rc_to_sq_def Let_def square_of_rank_file)
next
  assume rc: "0 \<le> row \<and> row \<le> 7 \<and> 0 \<le> col \<and> col \<le> 7"
  then have "square_rank (square col (7 - row)) = 7 - row"
    and "square_file (square col (7 - row)) = col"
    and "square_rank (square (7 - col) row) = row"
    and "square_file (square (7 - col) row) = 7 - col"
    by (simp_all add: rank_of_square file_of_square)
  then show "sq_to_rc (rc_to_sq row col flp) flp = (row, col)"
    by (simp add: sq_to_rc_def rc_to_sq_def Let_def)
qed

theorem sq_rc_roundtrip_witness:
  "(0 \<le> (12::int) \<and> (12::int) < 64) \<and>
   (case sq_to_rc 12 True of (row, col) \<Rightarrow> rc_to_sq row col True) = 12 \<and>
   (0 \<le> (6::int) \<and> (6::int) \<le> 7 \<and> 0 \<le> (4::int) \<and> (4::int) \<le> 7) \<and>
   sq_to_rc (rc_to_sq 6 4 True) True = (6, 4)"
  using sq_rc_roundtrip [of 12 True 6 4] by simp

section \<open>What the operations leave alone\<close>

lemma draw_board_frame [simp]:
  "board (draw_board R s) = board s"
  "flip (draw_board R s) = flip s"
  "selected_sq (draw_board R s) = selected_sq s"
  "legal_targets (draw_board R s) = legal_targets s"
  "move_stack (draw_board R s) = move_stack s"
  "engine (draw_board R s) = engine s"
  "engine_side (draw_board R s) = engine_side s"
  "engine_think_time (draw_board R s) = engine_think_time s"
  "after_queue (draw_board R s) = after_queue s"
  "threads (draw_board R s) = threads s"
  by (simp_all add: draw_board_def Let_def)

lemma after_frame [simp]:
  "board (after ms f s) = board s"
  "flip (after ms f s) = flip s"
  "selected_sq (after ms f s) = selected_sq s"
  "legal_targets (after ms f s) = legal_targets s"
  "move_stack (after ms f s) = move_stack s"
  "engine (after ms f s) = engine s"
  "engine_side (after ms f s) = engine_side s"
  "engine_think_time (after ms f s) = engine_think_time s"
  "status_var (after ms f s) = status_var s"
  "threads (after ms f s) = threads s"
  by (simp_all add: after_def)

lemma start_engine_frame [simp]:
  "board (start_engine path popen s) = board s"
  "flip (start_engine path popen s) = flip s"
  "selected_sq (start_engine path popen s) = selected_sq s"
  "legal_targets (start_engine path popen s) = legal_targets s"
  "move_stack (start_engine path popen s) = move_stack s"
  "engine_side (start_engine path popen s) = engine_side s"
  "threads (start_engine path popen s) = threads s"
  by (simp_all add: start_engine_def split: option.split)

lemma new_game_frame [simp]:
  "board (new_game R s) = board_reset R"
  "move_stack (new_game R s) = []"
  "threads (new_game R s) = threads s"
  by (simp_all add: new_game_def Let_def)

lemma dispatch_simps:
  "dispatch R NewGame s = new_game R s"
  "dispatch R FlipBoard s = flip_board R s"
  "dispatch R (PlayVsEngine choice time path popen) s = ask_play_engine R choice time path popen s"
  "dispatch R (Click x y) s = on_click R x y s"
  "dispatch R (Due EngineMoveIfNeeded path popen) s = engine_move_if_needed R path popen s"
  "dispatch R (Due DrawBoard path popen) s = draw_board R s"
  "dispatch R (ThreadPlays i reply) s = thread_plays R i reply s"
  "dispatch R (ThreadAppends i) s = thread_appends i s"
  by (simp_all add: dispatch_def)


lemma push_move_fields:
  "board_push R (board s) m = Some b \<Longrightarrow> board (push_move R m s) = b"
  "board_push R (board s) m = Some b \<Longrightarrow> move_stack (push_move R m s) = move_stack s @ [(m, board_peek b)]"
  "board_push R (board s) m = Some b \<Longrightarrow> selected_sq (push_move R m s) = None"
  "board_push R (board s) m = Some b \<Longrightarrow> legal_targets (push_move R m s) = []"
  by (simp_all add: push_move_def)

lemma push_move_frame [simp]:
  "flip (push_move R m s) = flip s"
  "engine (push_move R m s) = engine s"
  "engine_side (push_move R m s) = engine_side s"
  "engine_think_time (push_move R m s) = engine_think_time s"
  "after_queue (push_move R m s) = after_queue s"
  "threads (push_move R m s) = threads s"
  by (simp_all add: push_move_def split: option.split)

lemma think_and_move_play_fields:
  "board_push R (board s) m = Some b \<Longrightarrow>
   think_and_move_play R (PlayResult (Some m)) s = (s\<lparr>board := b\<rparr>, Some m)"
  "board_push R (board s) m = None \<Longrightarrow>
   think_and_move_play R (PlayResult (Some m)) s = (s, None)"
  "think_and_move_play R PlayRaises s = (s, None)"
  "think_and_move_play R PlayNone s = (s, None)"
  "think_and_move_play R (PlayResult None) s = (s, None)"
  by (simp_all add: think_and_move_play_def)

lemma think_and_move_play_frame:
  "think_and_move_play R reply s = (s1, r) \<Longrightarrow>
   move_stack s1 = move_stack s \<and> threads s1 = threads s \<and> engine_side s1 = engine_side s \<and>
   flip s1 = flip s \<and> selected_sq s1 = selected_sq s \<and> legal_targets s1 = legal_targets s"
  by (auto simp: think_and_move_play_def split: play_reply.splits option.splits)

lemma think_and_move_append_frame [simp]:
  "board (think_and_move_append m s) = board s"
  "move_stack (think_and_move_append m s) = move_stack s @ [(m, None)]"
  "threads (think_and_move_append m s) = threads s"
  "engine_side (think_and_move_append m s) = engine_side s"
  by (simp_all add: think_and_move_append_def)

text \<open>Run with nothing in between, the thread makes its two writes as one.\<close>

lemma think_and_move_undisturbed:
  "think_and_move R reply s =
     (case reply of
        PlayRaises \<Rightarrow> s
      | PlayNone \<Rightarrow> s
      | PlayResult None \<Rightarrow> s
      | PlayResult (Some m) \<Rightarrow>
          (case board_push R (board s) m of
             None \<Rightarrow> s
           | Some b \<Rightarrow>
               after 10 DrawBoard
                 (s\<lparr>board := b, move_stack := move_stack s @ [(m, None)]\<rparr>)))"
  by (simp add: think_and_move_def think_and_move_play_def think_and_move_append_def
      split: play_reply.split option.split)

lemma engine_move_if_needed_frame [simp]:
  "board (engine_move_if_needed R path popen s) = board s"
  "move_stack (engine_move_if_needed R path popen s) = move_stack s"
  "engine_side (engine_move_if_needed R path popen s) = engine_side s"
  "selected_sq (engine_move_if_needed R path popen s) = selected_sq s"
  "legal_targets (engine_move_if_needed R path popen s) = legal_targets s"
  "flip (engine_move_if_needed R path popen s) = flip s"
  by (simp_all add: engine_move_if_needed_def Let_def)

lemma thread_plays_frame [simp]:
  "move_stack (thread_plays R i reply s) = move_stack s"
  "engine_side (thread_plays R i reply s) = engine_side s"
  by (auto simp: thread_plays_def split: prod.split option.split
      dest: think_and_move_play_frame)

lemma thread_appends_frame [simp]:
  "board (thread_appends i s) = board s"
  "engine_side (thread_appends i s) = engine_side s"
  by (simp_all add: thread_appends_def split: worker.split)


lemma board_pop_push: "board_push R b m = Some b' \<Longrightarrow> board_pop b' = Inr b"
  by (auto simp: board_push_def board_pop_def split: option.splits)

section \<open>New game\<close>

text \<open>
  Claim C6. After New Game, from any state, the position is the starting position of
  the rules (\<^verbatim>\<open>board.reset()\<close>), the board's stack and the history are empty, and
  nothing is selected: no selected square, no legal targets. On the standard rules the
  position is the standard initial arrangement \<open>std_start\<close>.
\<close>

theorem new_game_resets:
  "position (board (new_game R s)) = start_pos R \<and> stack (board (new_game R s)) = [] \<and>
   move_stack (new_game R s) = [] \<and>
   selected_sq (new_game R s) = None \<and> legal_targets (new_game R s) = [] \<and>
   position (board (new_game std_rules s')) = std_start"
  by (simp add: new_game_def Let_def board_reset_def std_rules_def)

section \<open>Clicks while the engine is to move\<close>

text \<open>
  Claim C7. When the engine's side is the side to move, a click at any coordinate
  leaves the state as it was, so position, history and selection are unchanged.
\<close>

theorem on_click_ignored_on_engine_turn:
  "engine_side s = Some (turn R (position (board s))) \<Longrightarrow> on_click R x y s = s"
  by (simp add: on_click_def Let_def)

section \<open>Engine turns without a move\<close>

text \<open>
  Claim C8. An engine move request is \<^verbatim>\<open>engine_move_if_needed\<close>, which starts
  the thread, and the thread's step when \<^verbatim>\<open>engine.play\<close> comes back. The request
  itself leaves board and history as they were. When \<^verbatim>\<open>play\<close> raises, returns
  nothing, or returns a result without a move, the thread's step changes nothing and
  leaves nothing to append, in whatever state it is taken; so board and history after
  the request and its thread are those before.
\<close>

theorem engine_no_move_no_mutation:
  "reply = PlayRaises \<or> reply = PlayNone \<or> reply = PlayResult None \<Longrightarrow>
   board (engine_move_if_needed R path popen s) = board s \<and>
   move_stack (engine_move_if_needed R path popen s) = move_stack s \<and>
   think_and_move_play R reply t = (t, None) \<and>
   think_and_move R reply t = t \<and>
   board (dispatch R (ThreadPlays i reply) t) = board t \<and>
   move_stack (dispatch R (ThreadPlays i reply) t) = move_stack t \<and>
   board (think_and_move R reply (engine_move_if_needed R path popen s)) = board s \<and>
   move_stack (think_and_move R reply (engine_move_if_needed R path popen s)) = move_stack s"
  by (auto simp: think_and_move_def think_and_move_play_fields dispatch_def thread_plays_def)

section \<open>Undo and the selection\<close>

text \<open>
  Claim C2, amended. Undo on an empty history returns at once and leaves the whole
  state as it was: position, history and side to move, and the selection as well,
  which is not reset. Undo on a non-empty history, the board having a ply to take
  back, does not raise and ends with no selected square and no legal targets.
\<close>

theorem undo_move_selection:
  "(move_stack s = [] \<longrightarrow> undo_move R s = Inr s) \<and>
   (move_stack s \<noteq> [] \<and> stack (board s) \<noteq> [] \<longrightarrow>
      (\<exists>s'. undo_move R s = Inr s' \<and> selected_sq s' = None \<and> legal_targets s' = []))"
  by (simp add: undo_move_def board_pop_def)

section \<open>The engine assignment\<close>

lemma undo_move_engine_side: "undo_move R s = Inr s' \<Longrightarrow> engine_side s' = engine_side s"
  by (auto simp: undo_move_def split: if_splits sum.splits)

lemma on_click_engine_side: "engine_side (on_click R x y s) = engine_side s"
  by (simp add: on_click_def Let_def split: option.split)

lemma new_game_engine_side: "engine_side (new_game R s) = engine_side s"
  by (simp add: new_game_def Let_def)

text \<open>
  Claim C3, amended. The side the engine plays is changed by the Play-vs-Engine action
  only: New Game leaves it as it was, and so does every event other than
  Play-vs-Engine, the steps of the threads included.
\<close>

theorem engine_side_changed_only_by_play_vs_engine:
  "engine_side (new_game R s) = engine_side s \<and>
   (\<not> is_play_vs_engine ev \<longrightarrow> engine_side (dispatch R ev s) = engine_side s)"
proof (intro conjI impI)
  show "engine_side (new_game R s) = engine_side s" by (rule new_game_engine_side)
next
  assume "\<not> is_play_vs_engine ev"
  then show "engine_side (dispatch R ev s) = engine_side s"
  proof (cases ev)
    case Undo
    then show ?thesis
      by (auto simp: dispatch_def dest: undo_move_engine_side split: sum.split)
  next
    case (Due cb path popen)
    then show ?thesis
      by (cases cb) (simp_all add: dispatch_def)
  qed (simp_all add: dispatch_def new_game_engine_side flip_board_def on_click_engine_side)
qed

section \<open>Clicks away from the pieces of the side to move\<close>

text \<open>
  Claim C9, amended. A click on a square that holds no piece of the side to move:
  with nothing selected it leaves the state as it was; off the grid or while the engine
  is to move it is ignored; with a piece selected and no legal move from it to the
  clicked square, whatever the promotion piece, it clears the selection (no selected
  square, no legal targets) and leaves board and history alone.
\<close>

theorem click_off_own_piece:
  "\<not> own_piece R (position (board s)) (clicked_sq s x y) \<Longrightarrow>
   (selected_sq s = None \<longrightarrow> on_click R x y s = s) \<and>
   (\<not> on_grid x y \<or> engine_to_move R s \<longrightarrow> on_click R x y s = s) \<and>
   (selected_sq s = Some sel \<and> on_grid x y \<and> \<not> engine_to_move R s \<and>
    (\<forall>k. \<not> is_legal R (position (board s)) (Move sel (clicked_sq s x y) k)) \<longrightarrow>
      selected_sq (on_click R x y s) = None \<and> legal_targets (on_click R x y s) = [] \<and>
      board (on_click R x y s) = board s \<and> move_stack (on_click R x y s) = move_stack s)"
  by (auto simp: on_click_def Let_def clicked_sq_def on_grid_def click_col_def click_row_def
      engine_to_move_def)

section \<open>History entries and plies\<close>


lemma pending_frame [simp]:
  "pending (draw_board R s) = pending s"
  "pending (after ms f s) = pending s"
  "pending (start_engine path popen s) = pending s"
  "pending (push_move R m s) = pending s"
  "pending (engine_move_if_needed R path popen s) = pending s"
  "pending (think_and_move_append m s) = pending s"
  by (simp_all add: pending_def engine_move_if_needed_def Let_def)





lemma ply_inv_draw_board [simp]: "ply_inv (draw_board R s) = ply_inv s"
  by (simp add: ply_inv_def)

lemma ply_inv_after [simp]: "ply_inv (after ms f s) = ply_inv s"
  by (simp add: ply_inv_def)











text \<open>
  The engine's move as the program makes it: the callback starts a thread, the
  thread pushes the move of the reply, and then appends the entry.
\<close>

lemma engine_move_applied:
  assumes push: "board_push R (board s) m = Some b"
    and turn: "engine_side s = Some (turn R (position (board s)))"
    and going: "\<not> is_game_over R (board s)"
    and alive: "engine (start_engine path popen s) \<noteq> None"
    and i: "i = length (threads s)"
    and s1: "s1 = dispatch R (Due EngineMoveIfNeeded path popen) s"
    and s2: "s2 = dispatch R (ThreadPlays i (PlayResult (Some m))) s1"
    and s3: "s3 = dispatch R (ThreadAppends i) s2"
  shows "board s1 = board s \<and> move_stack s1 = move_stack s \<and> pending s1 = pending s"
    and "board s2 = b \<and> move_stack s2 = move_stack s \<and> pending s2 = Suc (pending s)"
    and "board s3 = b \<and> move_stack s3 = move_stack s @ [(m, None)] \<and> pending s3 = pending s"
proof -
  let ?e = "start_engine path popen s"
  have e1: "s1 = ?e\<lparr>threads := threads s @ [Thinking]\<rparr>"
    using turn going alive by (simp add: s1 dispatch_def engine_move_if_needed_def Let_def)
  show c1: "board s1 = board s \<and> move_stack s1 = move_stack s \<and> pending s1 = pending s"
    by (simp add: e1 pending_def)
  have e2: "s2 = s1\<lparr>board := b, threads := threads s @ [Pushed m]\<rparr>"
    using push
    by (simp add: s2 dispatch_def thread_plays_def think_and_move_play_def i e1 nth_append)
  have t2: "threads s2 = threads s @ [Pushed m]" by (simp add: e2)
  show c2: "board s2 = b \<and> move_stack s2 = move_stack s \<and> pending s2 = Suc (pending s)"
    using c1 by (simp add: e2 i pending_def)
  have "s3 = think_and_move_append m (s2\<lparr>threads := threads s @ [Finished]\<rparr>)"
    by (simp add: s3 dispatch_def thread_appends_def t2 i nth_append)
  then show "board s3 = b \<and> move_stack s3 = move_stack s @ [(m, None)] \<and> pending s3 = pending s"
    using c2 by (simp add: pending_def)
qed


section \<open>Undo after a line of moves\<close>

lemma undo_times_Suc_right:
  "undo_times R (Suc n) s =
     (case undo_times R n s of Inl e \<Rightarrow> Inl e | Inr s' \<Rightarrow> undo_move R s')"
proof (induction n arbitrary: s)
  case 0
  show ?case by (simp split: sum.split)
next
  case (Suc n)
  show ?case
  proof (cases "undo_move R s")
    case (Inl e)
    then show ?thesis by simp
  next
    case (Inr s1)
    have "undo_times R (Suc (Suc n)) s = undo_times R (Suc n) s1"
      using Inr by simp
    also have "\<dots> = (case undo_times R n s1 of Inl e \<Rightarrow> Inl e | Inr s' \<Rightarrow> undo_move R s')"
      by (rule Suc.IH)
    also have "\<dots> = (case undo_times R (Suc n) s of Inl e \<Rightarrow> Inl e | Inr s' \<Rightarrow> undo_move R s')"
      using Inr by simp
    finally show ?thesis .
  qed
qed

lemma undo_after_push:
  "board_push R b0 m = Some b \<Longrightarrow> board t = b \<Longrightarrow> move_stack t = h0 @ [e] \<Longrightarrow>
   \<exists>t'. undo_move R t = Inr t' \<and> board t' = b0 \<and> move_stack t' = h0"
  by (auto simp: undo_move_def board_pop_push)

lemma legal_line_push:
  "legal_line R (position (board s)) (m # ms) \<Longrightarrow>
   \<exists>b. board_push R (board s) m = Some b \<and> legal_line R (position b) ms"
  by (auto simp: board_push_def split: option.splits)

text \<open>
  Claim C5. From any state, after a line of legal moves applied through
  \<^verbatim>\<open>push_move\<close>, as many Undos run without raising and bring the board (position
  and stack) and the history back to what they were before the line.
\<close>

theorem undo_restores_after_legal_moves:
  "legal_line R (position (board s)) ms \<Longrightarrow>
   \<exists>s'. undo_times R (length ms) (push_moves R ms s) = Inr s' \<and>
        board s' = board s \<and> move_stack s' = move_stack s"
proof (induction ms arbitrary: s)
  case Nil
  then show ?case by simp
next
  case (Cons m ms)
  from legal_line_push [OF Cons.prems] obtain b where
    push: "board_push R (board s) m = Some b" and rest: "legal_line R (position b) ms"
    by blast
  let ?pushed = "push_move R m s"
  have b1: "board ?pushed = b" and h1: "move_stack ?pushed = move_stack s @ [(m, board_peek b)]"
    using push by (simp_all add: push_move_fields)
  from rest b1 have "legal_line R (position (board ?pushed)) ms" by simp
  from Cons.IH [OF this] obtain s2 where
    undone: "undo_times R (length ms) (push_moves R ms ?pushed) = Inr s2" and
    b2: "board s2 = b" and h2: "move_stack s2 = move_stack s @ [(m, board_peek b)]"
    using b1 h1 by auto
  from undo_after_push [OF push b2 h2] obtain s' where
    "undo_move R s2 = Inr s'" "board s' = board s" "move_stack s' = move_stack s"
    by blast
  with undone show ?case
    by (simp only: length_Cons push_moves.simps undo_times_Suc_right) simp
qed

section \<open>Promotion by click\<close>

text \<open>The three ways a click on the grid is handled while a human is to move.\<close>

lemma on_click_select:
  "on_grid x y \<Longrightarrow> \<not> engine_to_move R s \<Longrightarrow> selected_sq s = None \<Longrightarrow>
   own_piece R (position (board s)) (clicked_sq s x y) \<Longrightarrow>
   on_click R x y s =
     draw_board R (s\<lparr>selected_sq := Some (clicked_sq s x y),
                      legal_targets := targets_from R (position (board s)) (clicked_sq s x y)\<rparr>)"
  by (auto simp: on_click_def Let_def on_grid_def click_col_def click_row_def
      engine_to_move_def clicked_sq_def)

lemma on_click_move:
  "on_grid x y \<Longrightarrow> \<not> engine_to_move R s \<Longrightarrow> selected_sq s = Some sel \<Longrightarrow>
   is_legal R (position (board s)) (Move sel (clicked_sq s x y) None) \<Longrightarrow>
   on_click R x y s =
     after 50 EngineMoveIfNeeded
       (draw_board R
          (push_move R
             (if is_promotion_move R s sel (clicked_sq s x y)
              then Move sel (clicked_sq s x y) (Some QUEEN)
              else Move sel (clicked_sq s x y) None) s))"
  by (auto simp: on_click_def Let_def on_grid_def click_col_def click_row_def
      engine_to_move_def clicked_sq_def)

lemma on_click_elsewhere:
  "on_grid x y \<Longrightarrow> \<not> engine_to_move R s \<Longrightarrow> selected_sq s = Some sel \<Longrightarrow>
   \<not> is_legal R (position (board s)) (Move sel (clicked_sq s x y) None) \<Longrightarrow>
   \<not> own_piece R (position (board s)) (clicked_sq s x y) \<Longrightarrow>
   on_click R x y s =
     after 50 EngineMoveIfNeeded (draw_board R (s\<lparr>selected_sq := None, legal_targets := []\<rparr>))"
  by (auto simp: on_click_def Let_def on_grid_def click_col_def click_row_def
      engine_to_move_def clicked_sq_def)

text \<open>
  A first click on a piece of the side to move and a second click on a square the bare
  move to which is not legal: the piece is selected, and nothing is played.
\<close>

lemma two_clicks_bare_move_illegal:
  assumes "selected_sq s = None" and "\<not> engine_to_move R s"
    and "on_grid x1 y1" and "on_grid x2 y2"
    and "own_piece R (position (board s)) (clicked_sq s x1 y1)"
    and "\<not> is_legal R (position (board s)) (Move (clicked_sq s x1 y1) (clicked_sq s x2 y2) None)"
  shows "on_click R x1 y1 s =
           draw_board R
             (s\<lparr>selected_sq := Some (clicked_sq s x1 y1),
                legal_targets := targets_from R (position (board s)) (clicked_sq s x1 y1)\<rparr>)"
    and "board (on_click R x2 y2 (on_click R x1 y1 s)) = board s"
    and "move_stack (on_click R x2 y2 (on_click R x1 y1 s)) = move_stack s"
proof -
  let ?picked = "draw_board R
             (s\<lparr>selected_sq := Some (clicked_sq s x1 y1),
                legal_targets := targets_from R (position (board s)) (clicked_sq s x1 y1)\<rparr>)"
  show picked: "on_click R x1 y1 s = ?picked"
    by (rule on_click_select [OF assms(3) assms(2) assms(1) assms(5)])
  have same: "clicked_sq ?picked x2 y2 = clicked_sq s x2 y2"
    by (simp add: clicked_sq_def)
  have "board (on_click R x2 y2 ?picked) = board s \<and>
        move_stack (on_click R x2 y2 ?picked) = move_stack s"
    using assms(2,4,6) same
    by (simp add: on_click_def [of R x2 y2] Let_def on_grid_def click_col_def click_row_def
        engine_to_move_def clicked_sq_def)
  then show "board (on_click R x2 y2 (on_click R x1 y1 s)) = board s"
    and "move_stack (on_click R x2 y2 (on_click R x1 y1 s)) = move_stack s"
    by (simp_all add: picked)
qed

text \<open>
  Claim C1 says that clicking a pawn and then its last-rank destination plays the
  move as a promotion to queen. The program does not do so. The second click tests
  the bare move, without promotion piece, for legality, and the legal moves of the
  library carry a promotion piece on every pawn move to the last rank. Whenever the
  bare move is not legal, the second click plays nothing: board and history stay as
  they were, although the promotion to queen is legal and \<^verbatim>\<open>is_promotion_move\<close>
  holds of the two squares.
\<close>

theorem promotion_by_click_left_unapplied:
  assumes "selected_sq s = None" and "\<not> engine_to_move R s"
    and "on_grid x1 y1" and "on_grid x2 y2"
    and "p = position (board s)"
    and "f = clicked_sq s x1 y1" and "t = clicked_sq s x2 y2"
    and "piece_at R p f = Some (Piece PAWN (turn R p))"
    and "square_rank t = (if turn R p = WHITE then 7 else 0)"
    and "is_legal R p (Move f t (Some QUEEN))"
    and "\<not> is_legal R p (Move f t None)"
  shows "selected_sq (on_click R x1 y1 s) = Some f \<and>
         is_promotion_move R (on_click R x1 y1 s) f t \<and>
         board (on_click R x2 y2 (on_click R x1 y1 s)) = board s \<and>
         move_stack (on_click R x2 y2 (on_click R x1 y1 s)) = move_stack s"
proof -
  have own: "own_piece R (position (board s)) (clicked_sq s x1 y1)"
    using assms(5,6,8) by (simp add: own_piece_def Piece_def)
  have bare: "\<not> is_legal R (position (board s))
                 (Move (clicked_sq s x1 y1) (clicked_sq s x2 y2) None)"
    using assms(5,6,7,11) by simp
  note clicks = two_clicks_bare_move_illegal [OF assms(1-4) own bare]
  have "is_promotion_move R (on_click R x1 y1 s) f t"
    using assms(5,8,9)
    by (simp add: clicks(1) is_promotion_move_def Piece_def WHITE_def BLACK_def)
  then show ?thesis
    using clicks(2,3) assms(6) by (simp add: clicks(1))
qed

subsection \<open>The standard rules on the bare move\<close>

text \<open>
  In the standard rules the hypothesis on the bare move holds in every position: the
  moves of a pawn that end on the first or last rank are generated with a promotion
  piece, and the moves compared by \<^verbatim>\<open>in board.legal_moves\<close> are compared with
  it. So on these rules no click on a pawn followed by a click on the last rank plays
  anything.
\<close>

lemma std_rules_fields [simp]:
  "start_pos std_rules = std_start"
  "push_pos std_rules = std_push"
  "legal_moves std_rules = std_legal_moves"
  "is_legal std_rules = std_is_legal"
  "piece_at std_rules = std_piece_at"
  "turn std_rules = to_move"
  by (simp_all add: std_rules_def)

lemma shift_rank: "shift sq d = Some t \<Longrightarrow> square_rank t = square_rank sq + snd d"
  by (auto simp: shift_def Let_def rank_of_square split: if_splits)

lemma step_attacks_rank:
  "t \<in> set (step_attacks sq steps) \<Longrightarrow> \<exists>d \<in> set steps. square_rank t = square_rank sq + snd d"
proof -
  assume "t \<in> set (step_attacks sq steps)"
  then obtain d where "d \<in> set steps" and "shift sq d = Some t"
    by (auto simp: step_attacks_def List.map_filter_def)
  then show ?thesis by (auto dest: shift_rank)
qed

lemma promote_bare:
  "Move f t None \<in> set (promote f t') \<Longrightarrow> square_rank t \<noteq> 0 \<and> square_rank t \<noteq> 7"
  by (auto simp: promote_def Move_def split: if_splits)

lemma pawn_moves_bare:
  assumes "Move f t None \<in> set (pawn_moves p f c)"
  shows "square_rank t \<noteq> 0 \<and> square_rank t \<noteq> 7"
proof -
  let ?dr = "if c = WHITE then 1 else - 1 :: int"
  let ?one = "filter (is_empty p) (step_attacks f [(0, ?dr)])"
  let ?caps = "filter (holds_color p (\<not> c)) (step_attacks f (pawn_steps c))"
  let ?two = "if ?one \<noteq> [] \<and> square_rank f = (if c = WHITE then 1 else 6)
              then filter (is_empty p) (step_attacks f [(0, 2 * ?dr)]) else []"
  let ?ep = "case ep_square p of
               None \<Rightarrow> []
             | Some e \<Rightarrow>
                 if e \<in> set (step_attacks f (pawn_steps c)) \<and> is_empty p e
                    \<and> square_rank f = (if c = WHITE then 4 else 3)
                 then [e] else []"
  from assms consider
      (promo) t' where "Move f t None \<in> set (promote f t')"
    | (two) "t \<in> set ?two"
    | (ep) "t \<in> set ?ep"
    by (auto simp: pawn_moves_def Let_def Move_def)
  then show ?thesis
  proof cases
    case promo
    then show ?thesis by (rule promote_bare)
  next
    case two
    then show ?thesis
      by (auto simp: WHITE_def dest!: step_attacks_rank split: if_splits)
  next
    case ep
    then show ?thesis
      by (auto simp: pawn_steps_def WHITE_def dest!: step_attacks_rank
          split: if_splits option.splits)
  qed
qed

lemma from_chess960_pawn:
  "std_piece_at p (from_square m) = Some pc \<Longrightarrow> piece_type pc = PAWN \<Longrightarrow> from_chess960 p m = m"
  by (auto simp: from_chess960_def has_king_on_def)

lemma std_bare_pawn_move_to_last_rank:
  assumes "std_piece_at p f = Some pc" and "piece_type pc = PAWN"
    and "square_rank t = 0 \<or> square_rank t = 7"
  shows "\<not> std_is_legal p (Move f t None)"
proof
  assume "std_is_legal p (Move f t None)"
  moreover have "from_chess960 p (Move f t None) = Move f t None"
    using assms(1,2) by (intro from_chess960_pawn [of p _ pc]) (simp_all add: Move_def)
  ultimately have "is_pseudo_legal p (Move f t None)"
    by (simp add: std_is_legal_def Let_def)
  then have "Move f t None \<in> set (pawn_moves p f (color pc))"
    using assms(1,2) by (auto simp: is_pseudo_legal_def piece_moves_def Move_def)
  from pawn_moves_bare [OF this] assms(3) show False by simp
qed

lemma std_promotion_by_click_never_played:
  assumes "selected_sq s = None" and "\<not> engine_to_move std_rules s"
    and "on_grid x1 y1" and "on_grid x2 y2"
    and "std_piece_at (position (board s)) (clicked_sq s x1 y1)
           = Some (Piece PAWN (to_move (position (board s))))"
    and "square_rank (clicked_sq s x2 y2) = (if to_move (position (board s)) = WHITE then 7 else 0)"
  shows "board (on_click std_rules x2 y2 (on_click std_rules x1 y1 s)) = board s \<and>
         move_stack (on_click std_rules x2 y2 (on_click std_rules x1 y1 s)) = move_stack s"
proof -
  have own: "own_piece std_rules (position (board s)) (clicked_sq s x1 y1)"
    using assms(5) by (simp add: own_piece_def Piece_def)
  have "\<not> std_is_legal (position (board s)) (Move (clicked_sq s x1 y1) (clicked_sq s x2 y2) None)"
    using assms(6)
    by (intro std_bare_pawn_move_to_last_rank [OF assms(5)]) (simp_all add: Piece_def)
  then have bare: "\<not> is_legal std_rules (position (board s))
                 (Move (clicked_sq s x1 y1) (clicked_sq s x2 y2) None)"
    by simp
  from two_clicks_bare_move_illegal(2,3) [OF assms(1-4) own bare] show ?thesis by simp
qed

section \<open>Concrete games\<close>

text \<open>
  The theorems above at concrete inputs, on the standard rules; closed terms of the
  rules are evaluated by the simplifier on the code equations.
\<close>

lemma sq_to_rc_on_board:
  "0 \<le> sq \<Longrightarrow> sq < 64 \<Longrightarrow> sq_to_rc sq flp = (row, col) \<Longrightarrow>
   0 \<le> row \<and> row \<le> 7 \<and> 0 \<le> col \<and> col \<le> 7 \<and> rc_to_sq row col flp = sq"
  by (auto simp: sq_to_rc_def rc_to_sq_def Let_def square_file_mod square_rank_div square_def
      split: if_splits)

lemma cell_centre: "0 \<le> c \<Longrightarrow> c \<le> 7 \<Longrightarrow> click_col (c * SQUARE_SIZE + SQUARE_SIZE div 2) = c"
  "0 \<le> c \<Longrightarrow> c \<le> 7 \<Longrightarrow> click_row (c * SQUARE_SIZE + SQUARE_SIZE div 2) = c"
  by (simp_all add: click_col_def click_row_def SQUARE_SIZE_def BOARD_SIZE_def)

lemma click_square_on_click:
  assumes "0 \<le> sq" and "sq < 64"
  shows "\<exists>x y. click_square R sq s = on_click R x y s \<and> on_grid x y \<and> clicked_sq s x y = sq"
proof -
  obtain row col where rc: "sq_to_rc sq (flip s) = (row, col)" by (cases "sq_to_rc sq (flip s)")
  from sq_to_rc_on_board [OF assms rc]
  have rng: "0 \<le> row" "row \<le> 7" "0 \<le> col" "col \<le> 7" and inv: "rc_to_sq row col (flip s) = sq"
    by simp_all
  let ?x = "col * SQUARE_SIZE + SQUARE_SIZE div 2" and ?y = "row * SQUARE_SIZE + SQUARE_SIZE div 2"
  have "click_square R sq s = on_click R ?x ?y s" by (simp add: click_square_def rc)
  moreover have "on_grid ?x ?y" using rng by (simp add: on_grid_def cell_centre)
  moreover have "clicked_sq s ?x ?y = sq" using rng inv by (simp add: clicked_sq_def cell_centre)
  ultimately show ?thesis by blast
qed

lemma not_promotion_inside:
  "0 < square_rank t \<Longrightarrow> square_rank t < 7 \<Longrightarrow> \<not> is_promotion_move R s f t"
  by (simp add: is_promotion_move_def Let_def split: option.split)

lemma click_move_plays:
  assumes idle: "idle_at p s"
    and f: "0 \<le> f" "f < 64" and t: "0 \<le> t" "t < 64"
    and own: "own_piece R p f"
    and legal: "is_legal R p (Move f t None)"
    and inside: "0 < square_rank t" "square_rank t < 7"
    and push: "push_pos R p (Move f t None) = Some (p', m')"
  shows "idle_at p' (click_square R t (click_square R f s)) \<and>
         move_stack (click_square R t (click_square R f s))
           = move_stack s @ [(Move f t None, Some m')] \<and>
         stack (board (click_square R t (click_square R f s))) = stack (board s) @ [(p, m')] \<and>
         flip (click_square R t (click_square R f s)) = flip s \<and>
         threads (click_square R t (click_square R f s)) = threads s"
proof -
  from idle have pos: "position (board s) = p" and sel: "selected_sq s = None"
    and eng: "engine_side s = None"
    by (simp_all add: idle_at_def)
  from click_square_on_click [OF f, of R s] obtain x1 y1 where
    c1: "click_square R f s = on_click R x1 y1 s" and g1: "on_grid x1 y1"
    and q1: "clicked_sq s x1 y1 = f" by blast
  let ?picked = "draw_board R (s\<lparr>selected_sq := Some f, legal_targets := targets_from R p f\<rparr>)"
  have s1: "click_square R f s = ?picked"
    using on_click_select [OF g1, of R s] sel eng own pos q1 c1
    by (simp add: engine_to_move_def)
  from click_square_on_click [OF t, of R ?picked] obtain x2 y2 where
    c2: "click_square R t ?picked = on_click R x2 y2 ?picked" and g2: "on_grid x2 y2"
    and q2: "clicked_sq ?picked x2 y2 = t" by blast
  have bp: "board_push R (board ?picked) (Move f t None)
              = Some \<lparr>position = p', stack = stack (board s) @ [(p, m')]\<rparr>"
    using push pos by (simp add: board_push_def)
  have "on_click R x2 y2 ?picked =
          after 50 EngineMoveIfNeeded (draw_board R (push_move R (Move f t None) ?picked))"
    using on_click_move [OF g2, of R ?picked f] legal pos eng q2
    by (simp add: engine_to_move_def not_promotion_inside [OF inside])
  then have s2: "click_square R t (click_square R f s) =
          after 50 EngineMoveIfNeeded (draw_board R (push_move R (Move f t None) ?picked))"
    using c2 s1 by simp
  show ?thesis
    using eng by (simp add: s2 idle_at_def push_move_fields [OF bp] board_peek_def)
qed

lemma click_moves_plain_line:
  "plain_line R p fts = Some p' \<Longrightarrow> idle_at p s \<Longrightarrow>
   idle_at p' (click_moves R fts s) \<and>
   length (move_stack (click_moves R fts s)) = length (move_stack s) + length fts \<and>
   length (stack (board (click_moves R fts s))) = length (stack (board s)) + length fts \<and>
   flip (click_moves R fts s) = flip s \<and> threads (click_moves R fts s) = threads s"
proof (induction fts arbitrary: p s)
  case Nil
  then show ?case by simp
next
  case (Cons ft fts)
  obtain f t where ft: "ft = (f, t)" by (cases ft)
  from Cons.prems(1) obtain p1 m1 where
    ok: "0 \<le> f" "f < 64" "0 \<le> t" "t < 64" "own_piece R p f" "is_legal R p (Move f t None)"
        "0 < square_rank t" "square_rank t < 7"
    and push: "push_pos R p (Move f t None) = Some (p1, m1)"
    and rest: "plain_line R p1 fts = Some p'"
    by (auto simp: ft Let_def split: if_splits option.splits)
  let ?picked = "click_square R t (click_square R f s)"
  from click_move_plays [OF Cons.prems(2) ok push]
  have step: "idle_at p1 ?picked" "move_stack ?picked = move_stack s @ [(Move f t None, Some m1)]"
    "stack (board ?picked) = stack (board s) @ [(p, m1)]" "flip ?picked = flip s"
    "threads ?picked = threads s"
    by simp_all
  from Cons.IH [OF rest step(1)] step(2-5) show ?case
    by (simp add: ft)
qed

lemma init_fields [simp]:
  "board (init R) = \<lparr>position = start_pos R, stack = []\<rparr>"
  "flip (init R) = False"
  "selected_sq (init R) = None"
  "legal_targets (init R) = []"
  "move_stack (init R) = []"
  "engine (init R) = None"
  "engine_side (init R) = None"
  "threads (init R) = []"
  by (simp_all add: init_def board_reset_def)

lemma init_idle: "idle_at (start_pos R) (init R)"
  by (simp add: idle_at_def)

lemma promotion_game_line: "plain_line std_rules std_start promotion_game = Some before_promotion"
  by code_simp

lemma e4_line: "plain_line std_rules std_start [(12, 28)] = Some after_e4"
  by code_simp

lemma before_promotion_reached:
  "idle_at before_promotion (click_moves std_rules promotion_game (init std_rules)) \<and>
   length (move_stack (click_moves std_rules promotion_game (init std_rules))) = 8 \<and>
   flip (click_moves std_rules promotion_game (init std_rules)) = False"
  using click_moves_plain_line [OF promotion_game_line, of "init std_rules"] init_idle [of std_rules]
  by (simp add: promotion_game_def)

lemma promotion_facts:
  "std_piece_at before_promotion 55 = Some (Piece PAWN WHITE)"
  "to_move before_promotion = WHITE"
  "std_is_legal before_promotion (Move 55 62 (Some QUEEN))"
  "\<not> std_is_legal before_promotion (Move 55 62 None)"
  by code_simp+

text \<open>
  The failing input of claim C1: the game above played by clicks from a fresh
  start, then a click on h7 and a click on g8. The pawn is selected, hxg8=Q is legal,
  the bare move h7g8 is not, and nothing is played.
\<close>

theorem promotion_by_click_left_unapplied_witness:
  "let s = click_moves std_rules promotion_game (init std_rules) in
     selected_sq s = None \<and> \<not> engine_to_move std_rules s \<and>
     on_grid 450 90 \<and> on_grid 390 30 \<and>
     position (board s) = before_promotion \<and>
     clicked_sq s 450 90 = 55 \<and> clicked_sq s 390 30 = 62 \<and>
     piece_at std_rules before_promotion 55 = Some (Piece PAWN (turn std_rules before_promotion)) \<and>
     square_rank 62 = (if turn std_rules before_promotion = WHITE then 7 else 0) \<and>
     is_legal std_rules before_promotion (Move 55 62 (Some QUEEN)) \<and>
     \<not> is_legal std_rules before_promotion (Move 55 62 None) \<and>
     selected_sq (on_click std_rules 450 90 s) = Some 55 \<and>
     is_promotion_move std_rules (on_click std_rules 450 90 s) 55 62 \<and>
     board (on_click std_rules 390 30 (on_click std_rules 450 90 s)) = board s \<and>
     move_stack (on_click std_rules 390 30 (on_click std_rules 450 90 s)) = move_stack s"
proof -
  let ?s = "click_moves std_rules promotion_game (init std_rules)"
  from before_promotion_reached
  have h1: "selected_sq ?s = None" and h2: "\<not> engine_to_move std_rules ?s"
    and h5: "before_promotion = position (board ?s)" and fl: "flip ?s = False"
    by (simp_all add: idle_at_def engine_to_move_def)
  have h3: "on_grid 450 90" and h4: "on_grid 390 30"
    by (simp_all add: on_grid_def click_col_def click_row_def SQUARE_SIZE_def BOARD_SIZE_def)
  have h6: "55 = clicked_sq ?s 450 90" and h7: "62 = clicked_sq ?s 390 30"
    by (simp_all add: clicked_sq_def fl click_col_def click_row_def SQUARE_SIZE_def
        BOARD_SIZE_def rc_to_sq_def square_def)
  have h8: "piece_at std_rules before_promotion 55
              = Some (Piece PAWN (turn std_rules before_promotion))"
    by (simp add: promotion_facts)
  have h9: "square_rank 62 = (if turn std_rules before_promotion = WHITE then 7 else 0)"
    by (simp add: promotion_facts square_rank_div)
  have h10: "is_legal std_rules before_promotion (Move 55 62 (Some QUEEN))"
    by (simp add: promotion_facts)
  have h11: "\<not> is_legal std_rules before_promotion (Move 55 62 None)"
    by (simp add: promotion_facts)
  from promotion_by_click_left_unapplied [OF h1 h2 h3 h4 h5 h6 h7 h8 h9 h10 h11]
  show ?thesis
    using h1 h2 h3 h4 h5 [symmetric] h6 [symmetric] h7 [symmetric] h8 h9 h10 h11
    unfolding Let_def by blast
qed

lemma pixel_facts:
  "on_grid 270 390" "on_grid 270 270" "on_grid 270 210" "on_grid 270 90" "\<not> on_grid 500 210"
  "flip s = False \<Longrightarrow> clicked_sq s 270 390 = 12"
  "flip s = False \<Longrightarrow> clicked_sq s 270 270 = 28"
  "flip s = False \<Longrightarrow> clicked_sq s 270 210 = 36"
  "flip s = False \<Longrightarrow> clicked_sq s 270 90 = 52"
  "flip s = False \<Longrightarrow> clicked_sq s 500 210 = 40"
  by (simp_all add: on_grid_def clicked_sq_def click_col_def click_row_def SQUARE_SIZE_def
      BOARD_SIZE_def rc_to_sq_def square_def)

lemma start_facts:
  "own_piece std_rules std_start 12"
  "\<not> own_piece std_rules std_start 36"
  "\<not> own_piece std_rules std_start 40"
  "to_move std_start = WHITE"
  "legal_line std_rules std_start [Move 12 28 None, Move 52 36 None]"
  "std_push std_start (Move 12 28 None) = Some (after_e4, Move 12 28 None)"
  "std_push std_start (Move 28 36 None) = None"
  "own_piece std_rules after_e4 52"
  by code_simp+

lemma e2_targets: "targets_from std_rules std_start 12 = [20, 28]"
  by code_simp

lemma no_e2_e5: "\<not> std_is_legal std_start (Move 12 36 k)"
proof (cases k)
  case None
  show ?thesis unfolding None by code_simp
next
  case (Some pt)
  show ?thesis unfolding Some by (cases pt; hypsubst; code_simp)
qed

lemma e2_selected:
  "on_click std_rules 270 390 (init std_rules) =
     draw_board std_rules
       ((init std_rules)\<lparr>selected_sq := Some 12,
                          legal_targets := targets_from std_rules std_start 12\<rparr>)"
  using on_click_select [of 270 390 std_rules "init std_rules"]
  by (simp add: pixel_facts start_facts engine_to_move_def)

lemma e4_played:
  "idle_at after_e4 (click_moves std_rules [(12, 28)] (init std_rules))"
  "length (move_stack (click_moves std_rules [(12, 28)] (init std_rules))) = 1"
  "length (stack (board (click_moves std_rules [(12, 28)] (init std_rules)))) = 1"
  "flip (click_moves std_rules [(12, 28)] (init std_rules)) = False"
  "threads (click_moves std_rules [(12, 28)] (init std_rules)) = []"
  using click_moves_plain_line [OF e4_line, of "init std_rules"] init_idle [of std_rules]
  by simp_all

lemma ask_play_engine_frame [simp]:
  "board (ask_play_engine R choice time path popen s) = board s"
  "flip (ask_play_engine R choice time path popen s) = flip s"
  "selected_sq (ask_play_engine R choice time path popen s) = selected_sq s"
  "legal_targets (ask_play_engine R choice time path popen s) = legal_targets s"
  "move_stack (ask_play_engine R choice time path popen s) = move_stack s"
  "engine_side (ask_play_engine R choice time path popen s)
     = Some (if choice = ''yes'' then BLACK else WHITE)"
  by (simp_all add: ask_play_engine_def Let_def split: option.split)

lemma engine_white_facts:
  "\<not> std_is_game_over \<lparr>position = std_start, stack = []\<rparr>"
  by code_simp

text \<open>
  The engine is given White in a fresh game, the callback starts the thread, and the
  engine answers 1. e4.
\<close>

lemma engine_e4:
  fixes s s1 s2 s3 :: "chess_position gui"
  assumes "s = ask_play_engine std_rules ''no'' None ''stockfish'' (Some SimpleEngine)
                 (init std_rules)"
    and "s1 = dispatch std_rules (Due EngineMoveIfNeeded ''stockfish'' (Some SimpleEngine)) s"
    and "s2 = dispatch std_rules (ThreadPlays 0 (PlayResult (Some (Move 12 28 None)))) s1"
    and "s3 = dispatch std_rules (ThreadAppends 0) s2"
  shows "board_push std_rules (board s) (Move 12 28 None)
           = Some \<lparr>position = after_e4, stack = [(std_start, Move 12 28 None)]\<rparr>"
    and "engine_side s = Some (turn std_rules (position (board s)))"
    and "\<not> is_game_over std_rules (board s)"
    and "engine (start_engine ''stockfish'' (Some SimpleEngine) s) \<noteq> None"
    and "threads s = []" and "move_stack s = []" and "ply_inv s"
    and "threads s1 = [Thinking]"
    and "board s2 = \<lparr>position = after_e4, stack = [(std_start, Move 12 28 None)]\<rparr>"
    and "move_stack s2 = []" and "pending s2 = 1" and "threads s2 = [Pushed (Move 12 28 None)]"
    and "move_stack s3 = [(Move 12 28 None, None)]" and "pending s3 = 0"
    and "board s3 = \<lparr>position = after_e4, stack = [(std_start, Move 12 28 None)]\<rparr>"
proof -
  show push: "board_push std_rules (board s) (Move 12 28 None)
           = Some \<lparr>position = after_e4, stack = [(std_start, Move 12 28 None)]\<rparr>"
    by (simp add: assms(1) board_push_def start_facts)
  show turn: "engine_side s = Some (turn std_rules (position (board s)))"
    by (simp add: assms(1) start_facts)
  show going: "\<not> is_game_over std_rules (board s)"
    by (simp add: assms(1) std_rules_def engine_white_facts)
  show alive: "engine (start_engine ''stockfish'' (Some SimpleEngine) s) \<noteq> None"
    by (simp add: assms(1) ask_play_engine_def Let_def start_engine_def after_def)
  show th: "threads s = []" and ms: "move_stack s = []"
    by (simp_all add: assms(1) ask_play_engine_def Let_def after_def)
  show "ply_inv s" by (simp add: ply_inv_def pending_def th ms) (simp add: assms(1))
  show th1: "threads s1 = [Thinking]"
    using turn going alive th
    by (simp add: assms(2) dispatch_def engine_move_if_needed_def Let_def)
  have i: "0 = length (threads s)" by (simp add: th)
  note applied = engine_move_applied [OF push turn going alive i assms(2) assms(3) assms(4)]
  have p0: "pending s = 0" by (simp add: pending_def th)
  show "board s2 = \<lparr>position = after_e4, stack = [(std_start, Move 12 28 None)]\<rparr>"
    and "move_stack s2 = []" and "pending s2 = 1"
    using applied(2) ms p0 by simp_all
  show "move_stack s3 = [(Move 12 28 None, None)]" and "pending s3 = 0"
    and "board s3 = \<lparr>position = after_e4, stack = [(std_start, Move 12 28 None)]\<rparr>"
    using applied(3) ms p0 by simp_all
  note th1
  moreover have "board_push std_rules (board s1) (Move 12 28 None)
           = Some \<lparr>position = after_e4, stack = [(std_start, Move 12 28 None)]\<rparr>"
    using push by (simp add: assms(2) dispatch_def)
  ultimately show "threads s2 = [Pushed (Move 12 28 None)]"
    by (simp add: assms(3) dispatch_def thread_plays_def think_and_move_play_fields(1))
qed

text \<open>
  Claim C2 as stated fails: in a fresh game, click e2 and press Undo. The history is
  empty, Undo returns the state as it is, and e2 is still selected.
\<close>

theorem undo_keeps_selection_on_empty_history:
  "let s = on_click std_rules 270 390 (init std_rules)
   in move_stack s = [] \<and> selected_sq s = Some 12 \<and> undo_move std_rules s = Inr s"
  by (simp add: e2_selected undo_move_def)

text \<open>
  The amended claim C2 at a fresh game, and after 1. e4 with the pawn on e7 selected.
\<close>

theorem undo_move_selection_witness:
  "let s0 = init std_rules;
       s1 = on_click std_rules 270 90 (click_moves std_rules [(12, 28)] (init std_rules))
   in move_stack s0 = [] \<and> undo_move std_rules s0 = Inr s0 \<and>
      (move_stack s1 \<noteq> [] \<and> stack (board s1) \<noteq> []) \<and> selected_sq s1 = Some 52 \<and>
      (\<exists>s'. undo_move std_rules s1 = Inr s' \<and> selected_sq s' = None \<and> legal_targets s' = [])"
proof -
  let ?fresh = "init std_rules"
  let ?s = "click_moves std_rules [(12, 28)] (init std_rules)"
  let ?picked = "on_click std_rules 270 90 ?s"
  have idle: "position (board ?s) = after_e4" "selected_sq ?s = None" "engine_side ?s = None"
    using e4_played(1) by (simp_all add: idle_at_def)
  have s1: "?picked = draw_board std_rules
                    (?s\<lparr>selected_sq := Some 52,
                        legal_targets := targets_from std_rules after_e4 52\<rparr>)"
    using on_click_select [of 270 90 std_rules ?s] idle e4_played(4)
    by (simp add: pixel_facts start_facts engine_to_move_def)
  have h1: "move_stack ?picked \<noteq> [] \<and> stack (board ?picked) \<noteq> []"
    using e4_played(2,3) by (auto simp: s1 simp del: click_moves.simps)
  have sel: "selected_sq ?picked = Some 52" by (simp add: s1 del: click_moves.simps)
  have h0: "move_stack ?fresh = []" by simp
  from undo_move_selection [of ?fresh std_rules] undo_move_selection [of ?picked std_rules] h0 h1 sel
  show ?thesis unfolding Let_def by blast
qed

text \<open>
  Claim C3 as stated fails: with the engine given Black, New Game leaves the engine
  with Black.
\<close>

theorem new_game_keeps_engine_side:
  "let s = ask_play_engine std_rules ''yes'' None ''stockfish'' (Some SimpleEngine)
             (init std_rules)
   in engine_side s = Some BLACK \<and> engine_side (new_game std_rules s) = Some BLACK"
  by (simp add: new_game_engine_side)

text \<open>The amended claim C3 at that state and the New Game event.\<close>

theorem engine_side_changed_only_by_play_vs_engine_witness:
  "let s = ask_play_engine std_rules ''yes'' None ''stockfish'' (Some SimpleEngine)
             (init std_rules)
   in engine_side (new_game std_rules s) = engine_side s \<and>
      \<not> is_play_vs_engine NewGame \<and>
      engine_side (dispatch std_rules NewGame s) = engine_side s"
  using engine_side_changed_only_by_play_vs_engine
    [of std_rules "ask_play_engine std_rules ''yes'' None ''stockfish'' (Some SimpleEngine)
             (init std_rules)" NewGame]
  by simp

text \<open>Claim C5 at a fresh game and the line 1. e4 e5.\<close>

theorem undo_restores_after_legal_moves_witness:
  "legal_line std_rules (position (board (init std_rules)))
     [Move 12 28 None, Move 52 36 None] \<and>
   (\<exists>s'. undo_times std_rules (length [Move 12 28 None, Move 52 36 None])
            (push_moves std_rules [Move 12 28 None, Move 52 36 None] (init std_rules)) = Inr s' \<and>
         board s' = board (init std_rules) \<and> move_stack s' = move_stack (init std_rules))"
proof -
  have line: "legal_line std_rules (position (board (init std_rules)))
     [Move 12 28 None, Move 52 36 None]"
    by (simp only: init_fields board.simps std_rules_fields start_facts)
  from undo_restores_after_legal_moves [OF line] line show ?thesis by blast
qed

text \<open>Claim C6 at the state after 1. e4 played by clicks.\<close>

theorem new_game_resets_witness:
  "let s = click_moves std_rules [(12, 28)] (init std_rules)
   in position (board s) = after_e4 \<and> length (move_stack s) = 1 \<and>
      position (board (new_game std_rules s)) = std_start \<and>
      stack (board (new_game std_rules s)) = [] \<and>
      move_stack (new_game std_rules s) = [] \<and>
      selected_sq (new_game std_rules s) = None \<and> legal_targets (new_game std_rules s) = []"
  using new_game_resets [of std_rules "click_moves std_rules [(12, 28)] (init std_rules)"
      "click_moves std_rules [(12, 28)] (init std_rules)"]
    e4_played
  by (simp add: idle_at_def)

text \<open>
  Claim C7 at a fresh game in which the engine was given White: a click on e2 is
  ignored.
\<close>

theorem on_click_ignored_on_engine_turn_witness:
  "let s = ask_play_engine std_rules ''no'' None ''stockfish'' (Some SimpleEngine)
             (init std_rules)
   in engine_side s = Some (turn std_rules (position (board s))) \<and>
      on_click std_rules 270 390 s = s"
proof -
  let ?s = "ask_play_engine std_rules ''no'' None ''stockfish'' (Some SimpleEngine)
             (init std_rules)"
  have h: "engine_side ?s = Some (turn std_rules (position (board ?s)))"
    by (simp add: start_facts)
  from on_click_ignored_on_engine_turn [OF h] h show ?thesis
    unfolding Let_def by blast
qed

text \<open>
  Claim C8 at the same state: the callback starts the thread, and the engine returns
  nothing.
\<close>

theorem engine_no_move_no_mutation_witness:
  "let s = ask_play_engine std_rules ''no'' None ''stockfish'' (Some SimpleEngine)
             (init std_rules);
       t = engine_move_if_needed std_rules ''stockfish'' (Some SimpleEngine) s
   in (PlayNone = PlayRaises \<or> PlayNone = PlayNone \<or> PlayNone = PlayResult None) \<and>
      threads t = [Thinking] \<and>
      board t = board s \<and> move_stack t = move_stack s \<and>
      think_and_move_play std_rules PlayNone t = (t, None) \<and>
      think_and_move std_rules PlayNone t = t \<and>
      board (dispatch std_rules (ThreadPlays 0 PlayNone) t) = board t \<and>
      move_stack (dispatch std_rules (ThreadPlays 0 PlayNone) t) = move_stack t \<and>
      board (think_and_move std_rules PlayNone t) = board s \<and>
      move_stack (think_and_move std_rules PlayNone t) = move_stack s"
proof -
  have h: "PlayNone = PlayRaises \<or> PlayNone = PlayNone \<or> PlayNone = PlayResult None"
    by simp
  have th: "threads (engine_move_if_needed std_rules ''stockfish'' (Some SimpleEngine)
              (ask_play_engine std_rules ''no'' None ''stockfish'' (Some SimpleEngine)
                (init std_rules))) = [Thinking]"
    using engine_e4(8) [OF refl refl refl refl] by (simp add: dispatch_simps(5))
  from engine_no_move_no_mutation [OF h] h th show ?thesis
    unfolding Let_def by blast
qed

text \<open>
  Claim C9 as stated fails: in a fresh game with e2 selected, a click on e5, which is
  empty and not a destination of the pawn, changes the selection: it clears it.
\<close>

theorem click_elsewhere_clears_selection:
  "let s = on_click std_rules 270 390 (init std_rules)
   in selected_sq s = Some 12 \<and> legal_targets s = [20, 28] \<and>
      clicked_sq s 270 210 = 36 \<and>
      \<not> own_piece std_rules (position (board s)) 36 \<and>
      \<not> is_legal std_rules (position (board s)) (Move 12 36 None) \<and>
      selected_sq (on_click std_rules 270 210 s) = None"
proof -
  let ?s = "on_click std_rules 270 390 (init std_rules)"
  have f: "selected_sq ?s = Some 12" "legal_targets ?s = [20, 28]" "flip ?s = False"
    "position (board ?s) = std_start" "engine_side ?s = None"
    by (simp_all add: e2_selected e2_targets)
  have "on_click std_rules 270 210 ?s =
     after 50 EngineMoveIfNeeded
       (draw_board std_rules (?s\<lparr>selected_sq := None, legal_targets := []\<rparr>))"
    using on_click_elsewhere [of 270 210 std_rules ?s 12] f
    by (simp add: pixel_facts start_facts no_e2_e5 engine_to_move_def)
  then have "selected_sq (on_click std_rules 270 210 ?s) = None" by simp
  then show ?thesis
    using f by (simp add: Let_def pixel_facts start_facts no_e2_e5)
qed

text \<open>
  The amended claim C9: a click on e5 in a fresh game with nothing selected, a click
  off the grid with e2 selected, and a click on e5 with e2 selected.
\<close>

theorem click_off_own_piece_witness:
  "let s0 = init std_rules; s1 = on_click std_rules 270 390 (init std_rules)
   in \<not> own_piece std_rules (position (board s0)) (clicked_sq s0 270 210) \<and>
      selected_sq s0 = None \<and> on_click std_rules 270 210 s0 = s0 \<and>
      \<not> own_piece std_rules (position (board s1)) (clicked_sq s1 500 210) \<and>
      (\<not> on_grid 500 210 \<or> engine_to_move std_rules s1) \<and> on_click std_rules 500 210 s1 = s1 \<and>
      \<not> own_piece std_rules (position (board s1)) (clicked_sq s1 270 210) \<and>
      (selected_sq s1 = Some 12 \<and> on_grid 270 210 \<and> \<not> engine_to_move std_rules s1 \<and>
       (\<forall>k. \<not> is_legal std_rules (position (board s1)) (Move 12 (clicked_sq s1 270 210) k))) \<and>
      selected_sq (on_click std_rules 270 210 s1) = None \<and>
      legal_targets (on_click std_rules 270 210 s1) = [] \<and>
      board (on_click std_rules 270 210 s1) = board s1 \<and>
      move_stack (on_click std_rules 270 210 s1) = move_stack s1"
proof -
  let ?fresh = "init std_rules"
  let ?picked = "on_click std_rules 270 390 (init std_rules)"
  have f1: "selected_sq ?picked = Some 12" "flip ?picked = False" "position (board ?picked) = std_start"
    "engine_side ?picked = None"
    by (simp_all add: e2_selected)
  have a: "\<not> own_piece std_rules (position (board ?fresh)) (clicked_sq ?fresh 270 210)"
    by (simp add: pixel_facts start_facts)
  have a0: "selected_sq ?fresh = None" by simp
  have b: "\<not> own_piece std_rules (position (board ?picked)) (clicked_sq ?picked 500 210)"
    by (simp add: f1 pixel_facts start_facts)
  have b0: "\<not> on_grid 500 210 \<or> engine_to_move std_rules ?picked"
    by (simp add: pixel_facts)
  have c: "\<not> own_piece std_rules (position (board ?picked)) (clicked_sq ?picked 270 210)"
    by (simp add: f1 pixel_facts start_facts)
  have c0: "selected_sq ?picked = Some 12 \<and> on_grid 270 210 \<and> \<not> engine_to_move std_rules ?picked \<and>
       (\<forall>k. \<not> is_legal std_rules (position (board ?picked)) (Move 12 (clicked_sq ?picked 270 210) k))"
    by (simp add: f1 pixel_facts no_e2_e5 engine_to_move_def)
  from click_off_own_piece [OF a, of 12] click_off_own_piece [OF b, of 12]
    click_off_own_piece [OF c, of 12] a a0 b b0 c c0
  show ?thesis unfolding Let_def by blast
qed



end
